theory Spec2Isabelle
  imports Main "HOL-Library.Word" "HOL-Library.Sublist"
begin

text \<open>
  A model of three parts of the interview transcription application: the batch
  transcription call with its hallucination filter (\<open>transcribeWithGroq\<close>), the
  reconnecting speech recognition session (\<open>SpeechRecognitionEngine\<close>) and the capture of
  the other party's audio (\<open>AudioCaptureEngine\<close>). Methods are functions on a record of
  the object's fields; what a method does to the browser is returned as a list of calls;
  an exception is a value. What the browser answers is a parameter.
\<close>

section \<open>JavaScript strings\<close>

text \<open>
  A JavaScript string is a sequence of 16-bit code units; \<open>length\<close>, \<open>includes\<close> and
  \<open>trim\<close> all work on code units. Every character of the phrases below lies in the
  Basic Multilingual Plane, so each is one code unit.
\<close>

type_synonym jsstring = "16 word list"

text \<open>
  \<open>String.prototype.trim\<close> strips WhiteSpace and LineTerminator code points from both
  ends: TAB, VT, FF, SP, NBSP, ZWNBSP, the category Zs, and LF, CR, LS, PS.
\<close>

definition isWhiteSpace :: "16 word \<Rightarrow> bool" where
  "isWhiteSpace c = (c \<in> set [0x0009, 0x000A, 0x000B, 0x000C, 0x000D, 0x0020, 0x00A0, 0x1680,
      0x2000, 0x2001, 0x2002, 0x2003, 0x2004, 0x2005, 0x2006, 0x2007, 0x2008, 0x2009, 0x200A,
      0x2028, 0x2029, 0x202F, 0x205F, 0x3000, 0xFEFF])"

definition trim :: "jsstring \<Rightarrow> jsstring" where
  "trim s = rev (dropWhile isWhiteSpace (rev (dropWhile isWhiteSpace s)))"

text \<open>\<open>s.includes(h)\<close>: \<open>h\<close> occurs in \<open>s\<close> as a contiguous run of code units.\<close>

fun includes_js :: "jsstring \<Rightarrow> jsstring \<Rightarrow> bool" where
  "includes_js [] h = (h = [])"
| "includes_js (c # cs) h = (prefix h (c # cs) \<or> includes_js cs h)"

section \<open>Batch transcription (ai-service.ts)\<close>

text \<open>The denylist, in source order, as UTF-16 code units.\<close>

definition WHISPER_HALLUCINATIONS :: "jsstring list" where
  "WHISPER_HALLUCINATIONS =
    [[0x3054, 0x8996, 0x8074, 0x3042, 0x308A, 0x304C, 0x3068, 0x3046, 0x3054, 0x3056, 0x3044,
      0x307E, 0x3057, 0x305F],
     [0x30C1, 0x30E3, 0x30F3, 0x30CD, 0x30EB, 0x767B, 0x9332],
     [0x9AD8, 0x8A55, 0x4FA1],
     [0x0054, 0x0068, 0x0061, 0x006E, 0x006B, 0x0073, 0x0020, 0x0066, 0x006F, 0x0072, 0x0020,
      0x0077, 0x0061, 0x0074, 0x0063, 0x0068, 0x0069, 0x006E, 0x0067],
     [0x0050, 0x006C, 0x0065, 0x0061, 0x0073, 0x0065, 0x0020, 0x0073, 0x0075, 0x0062, 0x0073,
      0x0063, 0x0072, 0x0069, 0x0062, 0x0065],
     [0x5B57, 0x5E55],
     [0x304A, 0x3084, 0x3059, 0x307F, 0x306A, 0x3055, 0x3044],
     [0x8996, 0x8074, 0x3042, 0x308A, 0x304C, 0x3068, 0x3046, 0x3054, 0x3056, 0x3044, 0x307E,
      0x3057, 0x305F],
     [0x6700, 0x5F8C, 0x307E, 0x3067, 0x3054, 0x8996, 0x8074]]"

text \<open>
  What \<open>response.json()\<close> can resolve to. The value of a number is never inspected.
  An object is its list of own properties.
\<close>

datatype json =
    JNull
  | JBool bool
  | JNum
  | JStr jsstring
  | JArr "json list"
  | JObj "(jsstring \<times> json) list"

datatype js_error =
    TypeError
  | FetchRejected
  | BodyRejected
  | InvalidStateError
  | NotSupportedError
  | NotAllowedError

type_synonym blob = "8 word list"

record response =
  ok :: bool
  status :: nat
  text_body :: "js_error + jsstring"
  json_body :: "js_error + json"

text \<open>The property name \<open>text\<close>.\<close>

definition key_text :: jsstring where
  "key_text = [0x0074, 0x0065, 0x0078, 0x0074]"

text \<open>
  \<open>data.text\<close>: reading a property of \<open>null\<close> throws; an object yields its own property
  or \<open>undefined\<close> (\<open>None\<close>); strings, numbers, booleans and arrays have no property
  \<open>text\<close>.
\<close>

fun get_text :: "json \<Rightarrow> js_error + json option" where
  "get_text JNull = Inl TypeError"
| "get_text (JObj props) = Inr (map_of props key_text)"
| "get_text _ = Inr None"

text \<open>
  \<open>v?.trim()\<close>: \<open>undefined\<close> and \<open>null\<close> short-circuit to \<open>undefined\<close>; a string is
  trimmed; on anything else \<open>trim\<close> is not a function (a JSON value never is one), and the
  call throws.
\<close>

fun optional_trim :: "json option \<Rightarrow> js_error + jsstring option" where
  "optional_trim None = Inr None"
| "optional_trim (Some JNull) = Inr None"
| "optional_trim (Some (JStr s)) = Inr (Some (trim s))"
| "optional_trim (Some _) = Inl TypeError"

text \<open>
  The three returns that end the \<open>try\<close> block: \<open>!text || text === ""\<close>, the denylist
  test \<open>WHISPER_HALLUCINATIONS.some((h) => text.includes(h))\<close>, and \<open>return text\<close>.
\<close>

definition denylisted :: "jsstring \<Rightarrow> bool" where
  "denylisted text = list_ex (\<lambda>h. includes_js text h) WHISPER_HALLUCINATIONS"

definition filterText :: "jsstring option \<Rightarrow> jsstring option" where
  "filterText text =
     (case text of
        None \<Rightarrow> None
      | Some t \<Rightarrow>
          if t = [] then None
          else if denylisted t then None
          else Some t)"

text \<open>
  The body of the \<open>try\<close> block, given what \<open>fetch\<close> settled to. \<open>Inl\<close> is an exception
  on its way to the \<open>catch\<close>.
\<close>

definition transcribeBody :: "js_error + response \<Rightarrow> js_error + jsstring option" where
  "transcribeBody fetched =
     (case fetched of
        Inl e \<Rightarrow> Inl e
      | Inr resp \<Rightarrow>
          if \<not> ok resp then
            (case text_body resp of Inl e \<Rightarrow> Inl e | Inr errorText \<Rightarrow> Inr None)
          else
            (case json_body resp of
               Inl e \<Rightarrow> Inl e
             | Inr data \<Rightarrow>
                 (case get_text data of
                    Inl e \<Rightarrow> Inl e
                  | Inr v \<Rightarrow>
                      (case optional_trim v of
                         Inl e \<Rightarrow> Inl e
                       | Inr text \<Rightarrow> Inr (filterText text)))))"

text \<open>
  \<open>transcribeWithGroq(audioBlob, groqApiKey)\<close>. The transcription service is the
  parameter \<open>service\<close>: what the \<open>fetch\<close> of this blob with this key settles to. The
  result is what the returned promise settles to: \<open>Inl\<close> a rejection, \<open>Inr None\<close> the
  value \<open>null\<close>.
\<close>

definition transcribeWithGroq ::
  "(blob \<Rightarrow> jsstring \<Rightarrow> js_error + response) \<Rightarrow> blob \<Rightarrow> jsstring \<Rightarrow> js_error + jsstring option"
where
  "transcribeWithGroq service audioBlob groqApiKey =
     (if groqApiKey = [] then Inr None
      else
        (case transcribeBody (service audioBlob groqApiKey) of
           Inl error \<Rightarrow> Inr None
         | Inr result \<Rightarrow> Inr result))"

text \<open>Concrete responses used to evaluate the function.\<close>

definition text_response :: "jsstring \<Rightarrow> response" where
  "text_response t =
     \<lparr>ok = True, status = 200, text_body = Inr [], json_body = Inr (JObj [(key_text, JStr t)])\<rparr>"

definition serve_text :: "jsstring \<Rightarrow> blob \<Rightarrow> jsstring \<Rightarrow> js_error + response" where
  "serve_text t b k = Inr (text_response t)"

definition serve_status :: "nat \<Rightarrow> blob \<Rightarrow> jsstring \<Rightarrow> js_error + response" where
  "serve_status n b k =
     Inr \<lparr>ok = False, status = n, text_body = Inr [], json_body = Inl BodyRejected\<rparr>"

definition serve_nothing :: "blob \<Rightarrow> jsstring \<Rightarrow> js_error + response" where
  "serve_nothing b k = Inl FetchRejected"

definition some_key :: jsstring where
  "some_key = [0x0067, 0x0073, 0x006B]"

definition goshichou :: jsstring where
  "goshichou = [0x3054, 0x8996, 0x8074, 0x3042, 0x308A, 0x304C, 0x3068, 0x3046, 0x3054, 0x3056,
     0x3044, 0x307E, 0x3057, 0x305F]"

definition yoroshiku :: jsstring where
  "yoroshiku = [0x3088, 0x308D, 0x3057, 0x304F, 0x304A, 0x9858, 0x3044, 0x3057, 0x307E, 0x3059]"

definition padded :: jsstring where
  "padded = [0x0020, 0x0061]"

section \<open>Continuous recognition (speech-recognition.ts)\<close>

text \<open>
  One entry of \<open>event.results\<close>: its \<open>isFinal\<close> flag and the transcripts of its
  alternatives, in order (\<open>result[0]\<close> is the head).
\<close>

record speech_result =
  isFinal :: bool
  alternatives :: "jsstring list"

record speech_event =
  resultIndex :: nat
  results :: "speech_result list"

datatype speech_message = MessageNotSupported | MessageStartFailed

text \<open>
  What a handler does to the outside: calls made on the recognition instance (instances
  are numbered in the order \<open>new SpeechRecognition()\<close> made them; \<open>RecognitionStart\<close> is
  a call of its \<open>start()\<close>, whether or not it throws), timers it sets, and the callbacks
  it invokes. \<open>CallbackStart\<close>, \<open>CallbackEnd\<close> and \<open>CallbackError\<close> stand for
  the optional calls \<open>onStart?.()\<close>, \<open>onEnd?.()\<close> and \<open>onError?.(message)\<close>.
\<close>

datatype speech_effect =
    Construct nat
  | RecognitionStart nat
  | RecognitionStop nat
  | SetTimeout nat
  | CallbackStart
  | CallbackEnd
  | CallbackError speech_message
  | CallbackFinalResult jsstring
  | CallbackInterimResult jsstring

text \<open>
  The fields of \<open>SpeechRecognitionEngine\<close>, the timers set by \<open>setTimeout\<close> that have not
  fired yet (their delays in milliseconds, oldest first) and the number of instances made
  so far.
\<close>

record speech_engine =
  recognition :: "nat option"
  isRunning :: bool
  shouldRestart :: bool
  pendingTimeouts :: "nat list"
  constructed :: nat

definition newSpeechEngine :: speech_engine where
  "newSpeechEngine =
     \<lparr>recognition = None, isRunning = False, shouldRestart = False, pendingTimeouts = [],
      constructed = 0\<rparr>"

text \<open>
  \<open>this.recognition?.start()\<close> inside \<open>try { } catch { }\<close> with an empty handler: the call
  is made on the current instance, if there is one, and whether it throws changes nothing.
\<close>

definition tryRestart :: "speech_engine \<Rightarrow> speech_effect list" where
  "tryRestart s = (case recognition s of None \<Rightarrow> [] | Some r \<Rightarrow> [RecognitionStart r])"

text \<open>
  \<open>start()\<close>. \<open>supported\<close> is \<open>SpeechRecognitionEngine.isSupported()\<close>; \<open>startThrows\<close> says
  whether \<open>recognition.start()\<close> on the new instance throws.
\<close>

definition start :: "bool \<Rightarrow> bool \<Rightarrow> speech_engine \<Rightarrow> bool \<times> speech_engine \<times> speech_effect list" where
  "start supported startThrows s =
     (if \<not> supported then (False, s, [CallbackError MessageNotSupported])
      else if isRunning s then (True, s, [])
      else
        (let n = constructed s;
             s1 = s\<lparr>recognition := Some n, constructed := Suc n\<rparr>;
             s2 = s1\<lparr>shouldRestart := True\<rparr>
         in if startThrows
            then (False, s2, [Construct n, RecognitionStart n, CallbackError MessageStartFailed])
            else (True, s2, [Construct n, RecognitionStart n])))"

definition recognition_onstart :: "speech_engine \<Rightarrow> speech_engine \<times> speech_effect list" where
  "recognition_onstart s = (s\<lparr>isRunning := True\<rparr>, [CallbackStart])"

definition recognition_onend :: "speech_engine \<Rightarrow> speech_engine \<times> speech_effect list" where
  "recognition_onend s =
     (let s1 = s\<lparr>isRunning := False\<rparr>
      in if shouldRestart s1 then (s1, tryRestart s1) else (s1, [CallbackEnd]))"

definition recognition_onerror :: "speech_engine \<Rightarrow> speech_engine \<times> speech_effect list" where
  "recognition_onerror s =
     (if shouldRestart s
      then (s\<lparr>pendingTimeouts := pendingTimeouts s @ [1000]\<rparr>, [SetTimeout 1000])
      else (s, []))"

text \<open>The callback given to \<open>setTimeout\<close>, when the oldest pending timer fires.\<close>

definition timeout_fires :: "speech_engine \<Rightarrow> speech_engine \<times> speech_effect list" where
  "timeout_fires s =
     (case pendingTimeouts s of
        [] \<Rightarrow> (s, [])
      | d # ds \<Rightarrow> (s\<lparr>pendingTimeouts := ds\<rparr>, tryRestart s))"

text \<open>
  The \<open>for\<close> loop of \<open>onresult\<close>, from index \<open>i\<close>. \<open>result[0].transcript\<close> throws when the
  result has no alternative.
\<close>

function collect :: "speech_result list \<Rightarrow> nat \<Rightarrow> jsstring \<Rightarrow> jsstring \<Rightarrow> js_error + (jsstring \<times> jsstring)" where
  "collect rs i finalText interimText =
     (if i < length rs then
        (case alternatives (rs ! i) of
           [] \<Rightarrow> Inl TypeError
         | a # other \<Rightarrow>
             if isFinal (rs ! i) then collect rs (Suc i) (finalText @ a) interimText
             else collect rs (Suc i) finalText (interimText @ a))
      else Inr (finalText, interimText))"
  by pat_completeness auto
termination
  by (relation "measure (\<lambda>(rs, i, f, t). length rs - i)") auto

declare collect.simps [simp del]

definition recognition_onresult :: "speech_event \<Rightarrow> js_error + speech_effect list" where
  "recognition_onresult event =
     (case collect (results event) (resultIndex event) [] [] of
        Inl e \<Rightarrow> Inl e
      | Inr (finalText, interimText) \<Rightarrow>
          Inr ((if interimText \<noteq> [] then [CallbackInterimResult interimText] else [])
               @ (if finalText \<noteq> []
                  then [CallbackFinalResult finalText, CallbackInterimResult []]
                  else [])))"

definition stop :: "speech_engine \<Rightarrow> speech_engine \<times> speech_effect list" where
  "stop s =
     (let s1 = s\<lparr>shouldRestart := False\<rparr>;
          effs = (case recognition s1 of None \<Rightarrow> [] | Some r \<Rightarrow> [RecognitionStop r])
      in (s1\<lparr>isRunning := False\<rparr>, effs))"

definition getIsRunning :: "speech_engine \<Rightarrow> bool" where
  "getIsRunning s = (isRunning s \<or> shouldRestart s)"

text \<open>
  What can happen to an engine: a call of \<open>start()\<close> (with whether the primitive's
  \<open>start\<close> throws) or \<open>stop()\<close>, a signal of the recognition primitive, or a pending timer
  firing. The handlers exist only once \<open>start()\<close> has made an instance and registered
  them; they read the engine through \<open>this\<close>, so every instance's handlers act alike. An
  exception inside \<open>onresult\<close> ends that handler with no callback made.
\<close>

datatype speech_input =
    CallStart bool
  | CallStop
  | SignalStart
  | SignalEnd
  | SignalError
  | SignalResult speech_event
  | TimeoutFires

fun step :: "bool \<Rightarrow> speech_input \<Rightarrow> speech_engine \<Rightarrow> speech_engine \<times> speech_effect list" where
  "step supported (CallStart startThrows) s = snd (start supported startThrows s)"
| "step supported CallStop s = stop s"
| "step supported TimeoutFires s = timeout_fires s"
| "step supported SignalStart s =
     (if recognition s = None then (s, []) else recognition_onstart s)"
| "step supported SignalEnd s =
     (if recognition s = None then (s, []) else recognition_onend s)"
| "step supported SignalError s =
     (if recognition s = None then (s, []) else recognition_onerror s)"
| "step supported (SignalResult event) s =
     (if recognition s = None then (s, [])
      else (case recognition_onresult event of Inl e \<Rightarrow> (s, []) | Inr effs \<Rightarrow> (s, effs)))"

fun run :: "bool \<Rightarrow> speech_input list \<Rightarrow> speech_engine \<Rightarrow> speech_engine" where
  "run supported [] s = s"
| "run supported (i # is) s = run supported is (fst (step supported i s))"

text \<open>The effects of each input, one list per input.\<close>

fun trace :: "bool \<Rightarrow> speech_input list \<Rightarrow> speech_engine \<Rightarrow> speech_effect list list" where
  "trace supported [] s = []"
| "trace supported (i # is) s =
     snd (step supported i s) # trace supported is (fst (step supported i s))"

fun isRestartAttempt :: "speech_effect \<Rightarrow> bool" where
  "isRestartAttempt (RecognitionStart r) = True"
| "isRestartAttempt _ = False"

text \<open>Inputs that are signals of the primitive, and neither calls nor timers.\<close>

fun isSignal :: "speech_input \<Rightarrow> bool" where
  "isSignal (CallStart b) = False"
| "isSignal CallStop = False"
| "isSignal TimeoutFires = False"
| "isSignal _ = True"

text \<open>
  The update window in the words of the specification: the results from the update's
  result index onward, the transcript of the first alternative of each, the final ones
  concatenated and the interim ones concatenated.
\<close>

definition firstTranscript :: "speech_result \<Rightarrow> jsstring" where
  "firstTranscript r = (case alternatives r of [] \<Rightarrow> [] | a # other \<Rightarrow> a)"

definition window :: "speech_event \<Rightarrow> speech_result list" where
  "window event = drop (resultIndex event) (results event)"

definition finalTextOf :: "speech_event \<Rightarrow> jsstring" where
  "finalTextOf event = concat (map firstTranscript (filter isFinal (window event)))"

definition interimTextOf :: "speech_event \<Rightarrow> jsstring" where
  "interimTextOf event =
     concat (map firstTranscript (filter (\<lambda>r. \<not> isFinal r) (window event)))"

text \<open>Inputs that start something: a call of \<open>start()\<close> or the primitive's started signal.\<close>

fun isStart :: "speech_input \<Rightarrow> bool" where
  "isStart (CallStart b) = True"
| "isStart SignalStart = True"
| "isStart _ = False"

text \<open>
  An update whose window holds two final results (the first with two alternatives) and
  one interim result, after one result outside the window.
\<close>

definition sample_event :: speech_event where
  "sample_event =
     \<lparr>resultIndex = 1,
      results =
        [\<lparr>isFinal = True, alternatives = [[0x0061]]\<rparr>,
         \<lparr>isFinal = True, alternatives = [[0x0062], [0x0078]]\<rparr>,
         \<lparr>isFinal = False, alternatives = [[0x0063]]\<rparr>,
         \<lparr>isFinal = True, alternatives = [[0x0064]]\<rparr>]\<rparr>"

section \<open>Audio capture (audio-capture.ts, the class AudioCaptureEngine)\<close>

datatype recorder_state = Inactive | Recording | Paused

datatype audio_source = MixedStream | RawStream

text \<open>
  A \<open>MediaRecorder\<close>: its \<open>state\<close>, the timeslice it was started with, the stream it
  reads and whether it was made with the opus mime type.
\<close>

record recorder =
  rstate :: recorder_state
  timeslice :: "nat option"
  source :: audio_source
  opus :: bool

text \<open>
  \<open>MediaRecorder.start\<close> throws on a recorder that is not inactive, and
  \<open>MediaRecorder.stop\<close> on one that is; otherwise they change its state at once.
\<close>

definition recorder_start :: "nat option \<Rightarrow> recorder \<Rightarrow> js_error + recorder" where
  "recorder_start ts r =
     (if rstate r \<noteq> Inactive then Inl InvalidStateError
      else Inr (r\<lparr>rstate := Recording, timeslice := ts\<rparr>))"

definition recorder_stop :: "recorder \<Rightarrow> js_error + recorder" where
  "recorder_stop r =
     (if rstate r = Inactive then Inl InvalidStateError else Inr (r\<lparr>rstate := Inactive\<rparr>))"

record track =
  enabled :: bool
  live :: bool

record media_stream =
  audioTracks :: "track list"
  videoTracks :: "track list"

text \<open>\<open>stream.active\<close>: some track of the stream has not ended.\<close>

definition active :: "media_stream \<Rightarrow> bool" where
  "active st = list_ex live (audioTracks st @ videoTracks st)"

datatype context_state = Suspended | Running | Closed

record AudioCaptureState =
  micActive :: bool
  systemAudioActive :: bool

datatype node = SourceNode | InputGainNode | AnalyserNode | KeepAliveOscillator

text \<open>
  Calls the engine makes on the outside and that return normally: timers, recorders (by
  their index in \<open>this.recorders\<close>), the oscillator, \<open>disconnect()\<close> on a node, \<open>stop()\<close>
  on a track (by its index in \<open>getTracks()\<close>), the registration of the \<open>onended\<close>
  handler, the two callbacks and the console.
\<close>

datatype capture_effect =
    ClearInterval
  | SetInterval nat
  | RecorderStart nat "nat option"
  | RecorderStop nat
  | OscillatorStart
  | OscillatorStop
  | Disconnect node
  | TrackStop nat
  | RegisterOnEnded
  | CallbackChunk blob nat
  | CallbackStateChange AudioCaptureState
  | ConsoleWarn
  | ConsoleError

text \<open>
  The fields of \<open>AudioCaptureEngine\<close>. \<open>recorderChunks\<close> is a JavaScript array read and
  written by index: a map from indices, \<open>None\<close> where the array has no element. The
  source node carries the stream it reads, the destination node the stream it provides,
  the input gain node its gain, the analyser its \<open>fftSize\<close>, the oscillator whether it has
  been started. The two callbacks are present or \<open>null\<close>.
\<close>

record capture_engine =
  micStream :: "media_stream option"
  systemStream :: "media_stream option"
  recorders :: "recorder list"
  recorderChunks :: "nat \<rightharpoonup> blob list"
  activeRecorderIndex :: nat
  switchInterval :: "nat option"
  audioContext :: "context_state option"
  sourceNode :: "audio_source option"
  inputGainNode :: "nat option"
  destinationNode :: "audio_source option"
  keepAliveOscillator :: "bool option"
  analyserNode :: "nat option"
  onChunkCallback :: bool
  onStateChange :: bool

definition emptyChunks :: "nat \<rightharpoonup> blob list" where
  "emptyChunks = [0 \<mapsto> [], 1 \<mapsto> []]"

definition newCaptureEngine :: "bool \<Rightarrow> bool \<Rightarrow> capture_engine" where
  "newCaptureEngine onChunk onState =
     \<lparr>micStream = None, systemStream = None, recorders = [], recorderChunks = emptyChunks,
      activeRecorderIndex = 0, switchInterval = None, audioContext = None, sourceNode = None,
      inputGainNode = None, destinationNode = None, keepAliveOscillator = None,
      analyserNode = None, onChunkCallback = onChunk, onStateChange = onState\<rparr>"

definition getState :: "capture_engine \<Rightarrow> AudioCaptureState" where
  "getState s =
     \<lparr>micActive = (case micStream s of None \<Rightarrow> False | Some m \<Rightarrow> active m),
      systemAudioActive = (case systemStream s of None \<Rightarrow> False | Some m \<Rightarrow> active m)\<rparr>"

definition notifyStateChange :: "capture_engine \<Rightarrow> capture_effect list" where
  "notifyStateChange s = (if onStateChange s then [CallbackStateChange (getState s)] else [])"

text \<open>
  A method's outcome: the engine as the method left it, the calls it made, and the
  exception that ended it, if one did.
\<close>

type_synonym outcome = "capture_engine \<times> capture_effect list \<times> js_error option"

definition proceed :: "capture_engine \<Rightarrow> capture_effect list \<Rightarrow> outcome" where
  "proceed s effs = (s, effs, None)"

definition throw :: "capture_engine \<Rightarrow> js_error \<Rightarrow> outcome" where
  "throw s e = (s, [], Some e)"

text \<open>Sequencing: the next statement runs only if nothing was thrown.\<close>

definition andThen :: "outcome \<Rightarrow> (capture_engine \<Rightarrow> outcome) \<Rightarrow> outcome" where
  "andThen r f =
     (case r of
        (s, effs, Some e) \<Rightarrow> (s, effs, Some e)
      | (s, effs, None) \<Rightarrow> (case f s of (s', effs', err) \<Rightarrow> (s', effs @ effs', err)))"

subsection \<open>stopSystemAudio\<close>

definition clearSwitchInterval :: "capture_engine \<Rightarrow> outcome" where
  "clearSwitchInterval s =
     (case switchInterval s of
        None \<Rightarrow> proceed s []
      | Some t \<Rightarrow> proceed (s\<lparr>switchInterval := None\<rparr>) [ClearInterval])"

text \<open>
  \<open>this.recorders.forEach\<close>: each recorder that is not inactive is stopped, from index
  \<open>i\<close> on; a throwing \<open>stop()\<close> ends the loop.
\<close>

fun stopEach :: "nat \<Rightarrow> recorder list \<Rightarrow> capture_effect list \<times> js_error option" where
  "stopEach i [] = ([], None)"
| "stopEach i (r # rs) =
     (if rstate r \<noteq> Inactive then
        (case recorder_stop r of
           Inl e \<Rightarrow> ([], Some e)
         | Inr r' \<Rightarrow> (case stopEach (Suc i) rs of (effs, err) \<Rightarrow> (RecorderStop i # effs, err)))
      else stopEach (Suc i) rs)"

definition stopRecorders :: "capture_engine \<Rightarrow> outcome" where
  "stopRecorders s =
     (case stopEach 0 (recorders s) of
        (effs, Some e) \<Rightarrow> (s, effs, Some e)
      | (effs, None) \<Rightarrow> proceed (s\<lparr>recorders := [], recorderChunks := emptyChunks\<rparr>) effs)"

text \<open>
  \<open>try { this.keepAliveOscillator.stop(); } catch { }\<close>: \<open>stop()\<close> throws on an
  oscillator that was never started, and the exception is dropped.
\<close>

definition oscillator_stop :: "bool \<Rightarrow> js_error + bool" where
  "oscillator_stop started = (if started then Inr False else Inl InvalidStateError)"

definition releaseOscillator :: "capture_engine \<Rightarrow> outcome" where
  "releaseOscillator s =
     (case keepAliveOscillator s of
        None \<Rightarrow> proceed s []
      | Some started \<Rightarrow>
          proceed (s\<lparr>keepAliveOscillator := None\<rparr>)
            ((case oscillator_stop started of Inl e \<Rightarrow> [] | Inr stopped \<Rightarrow> [OscillatorStop])
             @ [Disconnect KeepAliveOscillator]))"

definition releaseNodes :: "capture_engine \<Rightarrow> outcome" where
  "releaseNodes s =
     proceed
       (s\<lparr>sourceNode := None, destinationNode := None, inputGainNode := None,
          analyserNode := None\<rparr>)
       ((if sourceNode s \<noteq> None then [Disconnect SourceNode] else [])
        @ (if inputGainNode s \<noteq> None then [Disconnect InputGainNode] else [])
        @ (if analyserNode s \<noteq> None then [Disconnect AnalyserNode] else []))"

definition releaseStream :: "capture_engine \<Rightarrow> outcome" where
  "releaseStream s =
     (case systemStream s of
        None \<Rightarrow> proceed s []
      | Some st \<Rightarrow>
          proceed (s\<lparr>systemStream := None\<rparr>)
            (map TrackStop [0 ..< length (audioTracks st @ videoTracks st)]))"

definition stopSystemAudio :: "capture_engine \<Rightarrow> outcome" where
  "stopSystemAudio s =
     andThen (clearSwitchInterval s) (\<lambda>s1.
     andThen (stopRecorders s1) (\<lambda>s2.
     andThen (releaseOscillator s2) (\<lambda>s3.
     andThen (releaseNodes s3) (\<lambda>s4.
     andThen (releaseStream s4) (\<lambda>s5.
       proceed s5 (notifyStateChange s5))))))"

subsection \<open>Recording\<close>

text \<open>
  What the browser does with the calls of \<open>startSystemAudio\<close>: whether making the
  \<open>AudioContext\<close> throws and in which state a new one is, whether \<open>resume()\<close> rejects,
  what \<open>getDisplayMedia\<close> settles to, which call of the graph construction throws (if
  one does), whether the \<open>MediaRecorder\<close> constructor throws with and without the mime
  type, and whether \<open>start()\<close> is refused on the mixed or the raw stream.
\<close>

datatype graph_step =
    CreateSource
  | CreateDestination
  | CreateInputGain
  | CreateAnalyser
  | ConnectInput
  | CreateOscillator
  | ConnectKeepAlive
  | StartOscillator

record capture_env =
  contextThrows :: bool
  newContextState :: context_state
  resumeRejects :: bool
  displayMedia :: "js_error + media_stream"
  graphFails :: "graph_step option"
  opusThrows :: bool
  plainThrows :: bool
  dualStartThrows :: bool
  simpleStartThrows :: bool

text \<open>
  \<open>try { new MediaRecorder(audioStream, { mimeType }) } catch { new MediaRecorder(audioStream) }\<close>
\<close>

definition newRecorder :: "capture_env \<Rightarrow> audio_source \<Rightarrow> js_error + recorder" where
  "newRecorder env src =
     (if \<not> opusThrows env
      then Inr \<lparr>rstate = Inactive, timeslice = None, source = src, opus = True\<rparr>
      else if \<not> plainThrows env
      then Inr \<lparr>rstate = Inactive, timeslice = None, source = src, opus = False\<rparr>
      else Inl NotSupportedError)"

text \<open>The handlers \<open>createRecorder(index)\<close> gives a recorder.\<close>

definition recorder_ondataavailable :: "nat \<Rightarrow> blob \<Rightarrow> capture_engine \<Rightarrow> outcome" where
  "recorder_ondataavailable index data s =
     (if length data > 0 then
        (case recorderChunks s index of
           None \<Rightarrow> throw s TypeError
         | Some chunks \<Rightarrow>
             proceed (s\<lparr>recorderChunks := (recorderChunks s)(index \<mapsto> chunks @ [data])\<rparr>) [])
      else proceed s [])"

text \<open>
  \<open>new Blob(parts)\<close> is the concatenation of the parts, and empty for \<open>undefined\<close>.
  \<open>now\<close> is \<open>Date.now()\<close>.
\<close>

definition newBlob :: "blob list option \<Rightarrow> blob" where
  "newBlob parts = (case parts of None \<Rightarrow> [] | Some bs \<Rightarrow> concat bs)"

definition recorder_onstop :: "nat \<Rightarrow> nat \<Rightarrow> capture_engine \<Rightarrow> outcome" where
  "recorder_onstop index now s =
     (let blob = newBlob (recorderChunks s index);
          s1 = s\<lparr>recorderChunks := (recorderChunks s)(index \<mapsto> [])\<rparr>
      in if length blob > 0 \<and> onChunkCallback s1
         then proceed s1 [CallbackChunk blob now]
         else proceed s1 [])"

text \<open>\<open>this.recorders[i]\<close>, and the calls \<open>.start(ts)\<close> and \<open>.stop()\<close> on it.\<close>

definition recorderAt :: "capture_engine \<Rightarrow> nat \<Rightarrow> recorder option" where
  "recorderAt s i = (if i < length (recorders s) then Some (recorders s ! i) else None)"

definition startAt :: "nat \<Rightarrow> nat option \<Rightarrow> capture_engine \<Rightarrow> outcome" where
  "startAt i ts s =
     (case recorderAt s i of
        None \<Rightarrow> throw s TypeError
      | Some r \<Rightarrow>
          (case recorder_start ts r of
             Inl e \<Rightarrow> throw s e
           | Inr r' \<Rightarrow> proceed (s\<lparr>recorders := (recorders s)[i := r']\<rparr>) [RecorderStart i ts]))"

definition stopAt :: "nat \<Rightarrow> capture_engine \<Rightarrow> outcome" where
  "stopAt i s =
     (case recorderAt s i of
        None \<Rightarrow> throw s TypeError
      | Some r \<Rightarrow>
          (case recorder_stop r of
             Inl e \<Rightarrow> throw s e
           | Inr r' \<Rightarrow> proceed (s\<lparr>recorders := (recorders s)[i := r']\<rparr>) [RecorderStop i]))"

text \<open>The callback of \<open>setInterval\<close> in \<open>startDualRecording\<close>.\<close>

definition onSwitchInterval :: "capture_engine \<Rightarrow> outcome" where
  "onSwitchInterval s =
     (let nextIndex = (activeRecorderIndex s + 1) mod 2;
          currentIndex = activeRecorderIndex s
      in
        andThen
          (case recorderAt s nextIndex of
             None \<Rightarrow> throw s TypeError
           | Some nxt \<Rightarrow> if rstate nxt = Inactive then startAt nextIndex None s else proceed s [])
          (\<lambda>s1.
        andThen
          (case recorderAt s1 currentIndex of
             None \<Rightarrow> throw s1 TypeError
           | Some cur \<Rightarrow> if rstate cur \<noteq> Inactive then stopAt currentIndex s1 else proceed s1 [])
          (\<lambda>s2. proceed (s2\<lparr>activeRecorderIndex := nextIndex\<rparr>) [])))"

text \<open>
  Sequences of events: the timer ticking \<open>n\<close> times, and the recorder made by
  \<open>createRecorder(index)\<close> delivering pieces of data one after the other.
\<close>

fun ticks :: "nat \<Rightarrow> capture_engine \<Rightarrow> outcome" where
  "ticks 0 s = proceed s []"
| "ticks (Suc n) s = andThen (onSwitchInterval s) (ticks n)"

fun deliverAll :: "nat \<Rightarrow> blob list \<Rightarrow> capture_engine \<Rightarrow> outcome" where
  "deliverAll index [] s = proceed s []"
| "deliverAll index (d # ds) s = andThen (recorder_ondataavailable index d s) (deliverAll index ds)"

definition startDualRecording :: "capture_env \<Rightarrow> capture_engine \<Rightarrow> outcome" where
  "startDualRecording env s =
     (case newRecorder env MixedStream of
        Inl e \<Rightarrow> throw s e
      | Inr r0 \<Rightarrow>
          (case newRecorder env MixedStream of
             Inl e \<Rightarrow> throw s e
           | Inr r1 \<Rightarrow>
               (let s1 = s\<lparr>recorders := [r0, r1], activeRecorderIndex := 0\<rparr>
                in if dualStartThrows env then throw s1 NotSupportedError
                   else
                     andThen (startAt 0 None s1)
                       (\<lambda>s2. proceed (s2\<lparr>switchInterval := Some 3000\<rparr>) [SetInterval 3000]))))"

definition startSimpleRecording :: "capture_env \<Rightarrow> capture_engine \<Rightarrow> outcome" where
  "startSimpleRecording env s =
     (case newRecorder env RawStream of
        Inl e \<Rightarrow> throw s e
      | Inr r \<Rightarrow>
          if simpleStartThrows env then throw s NotSupportedError
          else
            (case recorder_start (Some 3000) r of
               Inl e \<Rightarrow> throw s e
             | Inr r' \<Rightarrow> proceed (s\<lparr>recorders := [r']\<rparr>) [RecorderStart 0 (Some 3000)]))"

text \<open>The \<open>ondataavailable\<close> handler of the recorder of \<open>startSimpleRecording\<close>.\<close>

definition simple_ondataavailable :: "blob \<Rightarrow> nat \<Rightarrow> capture_engine \<Rightarrow> outcome" where
  "simple_ondataavailable data now s =
     (if length data > 0 \<and> onChunkCallback s then proceed s [CallbackChunk data now]
      else proceed s [])"

subsection \<open>The mix graph\<close>

definition graph_steps :: "graph_step list" where
  "graph_steps =
     [CreateSource, CreateDestination, CreateInputGain, CreateAnalyser, ConnectInput,
      CreateOscillator, ConnectKeepAlive, StartOscillator]"

text \<open>What each call of the graph construction leaves in the engine once it has returned.\<close>

fun graphStep :: "graph_step \<Rightarrow> capture_engine \<Rightarrow> outcome" where
  "graphStep CreateSource s = proceed (s\<lparr>sourceNode := Some RawStream\<rparr>) []"
| "graphStep CreateDestination s = proceed (s\<lparr>destinationNode := Some MixedStream\<rparr>) []"
| "graphStep CreateInputGain s = proceed (s\<lparr>inputGainNode := Some 5\<rparr>) []"
| "graphStep CreateAnalyser s = proceed (s\<lparr>analyserNode := Some 256\<rparr>) []"
| "graphStep ConnectInput s = proceed s []"
| "graphStep CreateOscillator s = proceed (s\<lparr>keepAliveOscillator := Some False\<rparr>) []"
| "graphStep ConnectKeepAlive s = proceed s []"
| "graphStep StartOscillator s = proceed (s\<lparr>keepAliveOscillator := Some True\<rparr>) [OscillatorStart]"

fun buildGraph :: "graph_step option \<Rightarrow> graph_step list \<Rightarrow> capture_engine \<Rightarrow> outcome" where
  "buildGraph failing [] s = proceed s []"
| "buildGraph failing (st # rest) s =
     (if failing = Some st then throw s InvalidStateError
      else andThen (graphStep st s) (buildGraph failing rest))"

text \<open>
  The \<open>try\<close> block of \<open>setupAudioMixing\<close>: the calls that build the graph, then
  \<open>startDualRecording\<close> on the stream of the destination node.
\<close>

definition tryBlock :: "capture_env \<Rightarrow> capture_engine \<Rightarrow> outcome" where
  "tryBlock env s = andThen (buildGraph (graphFails env) graph_steps s) (startDualRecording env)"

text \<open>
  \<open>setupAudioMixing(stream)\<close>: whatever the \<open>try\<close> block throws, the \<open>catch\<close> block logs
  and calls \<open>startSimpleRecording(stream)\<close>, outside any \<open>try\<close>.
\<close>

definition setupAudioMixing :: "capture_env \<Rightarrow> capture_engine \<Rightarrow> outcome" where
  "setupAudioMixing env s =
     (if audioContext s = None then proceed s []
      else
        (case tryBlock env s of
           (s1, effs, None) \<Rightarrow> (s1, effs, None)
         | (s1, effs, Some e) \<Rightarrow>
             andThen (s1, effs @ [ConsoleError], None) (startSimpleRecording env)))"

subsection \<open>startSystemAudio\<close>

definition ensureContext :: "capture_env \<Rightarrow> capture_engine \<Rightarrow> outcome" where
  "ensureContext env s =
     (case audioContext s of
        Some c \<Rightarrow> proceed s []
      | None \<Rightarrow>
          if contextThrows env then throw s TypeError
          else proceed (s\<lparr>audioContext := Some (newContextState env)\<rparr>) [])"

definition resumeContext :: "capture_env \<Rightarrow> capture_engine \<Rightarrow> outcome" where
  "resumeContext env s =
     (if audioContext s = Some Suspended then
        (if resumeRejects env then throw s InvalidStateError
         else proceed (s\<lparr>audioContext := Some Running\<rparr>) [])
      else proceed s [])"

definition disableVideo :: "media_stream \<Rightarrow> media_stream" where
  "disableVideo st = st\<lparr>videoTracks := map (\<lambda>t. t\<lparr>enabled := False\<rparr>) (videoTracks st)\<rparr>"

text \<open>
  The rest of the \<open>try\<close> block once \<open>this.systemStream\<close> holds the captured stream. The
  third component is the exception on its way to the \<open>catch\<close>, or the value returned.
\<close>

definition withStream ::
  "capture_env \<Rightarrow> media_stream \<Rightarrow> capture_engine \<Rightarrow> capture_engine \<times> capture_effect list \<times> (js_error + bool)"
where
  "withStream env stream s =
     (if length (audioTracks stream) = 0 then
        (case stopSystemAudio s of
           (s1, effs, Some e) \<Rightarrow> (s1, ConsoleWarn # effs, Inl e)
         | (s1, effs, None) \<Rightarrow> (s1, ConsoleWarn # effs, Inr False))
      else
        (case setupAudioMixing env (s\<lparr>systemStream := Some (disableVideo stream)\<rparr>) of
           (s1, effs, Some e) \<Rightarrow> (s1, effs, Inl e)
         | (s1, effs, None) \<Rightarrow>
             (s1, effs @ [RegisterOnEnded] @ notifyStateChange s1, Inr True)))"

definition startBody ::
  "capture_env \<Rightarrow> capture_engine \<Rightarrow> capture_engine \<times> capture_effect list \<times> (js_error + bool)"
where
  "startBody env s =
     (case andThen (ensureContext env s) (resumeContext env) of
        (s1, effs, Some e) \<Rightarrow> (s1, effs, Inl e)
      | (s1, effs, None) \<Rightarrow>
          (case displayMedia env of
             Inl e \<Rightarrow> (s1, effs, Inl e)
           | Inr stream \<Rightarrow>
               (case withStream env stream (s1\<lparr>systemStream := Some stream\<rparr>) of
                  (s2, effs', r) \<Rightarrow> (s2, effs @ effs', r))))"

text \<open>\<open>startSystemAudio()\<close>: the \<open>catch\<close> logs and returns \<open>false\<close>.\<close>

definition startSystemAudio :: "capture_env \<Rightarrow> capture_engine \<Rightarrow> bool \<times> capture_engine \<times> capture_effect list" where
  "startSystemAudio env s =
     (case startBody env s of
        (s1, effs, Inl e) \<Rightarrow> (False, s1, effs @ [ConsoleError])
      | (s1, effs, Inr b) \<Rightarrow> (b, s1, effs))"

subsection \<open>Teardown in closed form\<close>

text \<open>
  The engine with the other channel torn down, and the calls that tear down what an engine
  holds, in the order in which \<open>stopSystemAudio\<close> makes them. The properties below compare
  \<open>stopSystemAudio\<close> with these.
\<close>

definition tornDown :: "capture_engine \<Rightarrow> capture_engine" where
  "tornDown s =
     s\<lparr>switchInterval := None, recorders := [], recorderChunks := emptyChunks,
       keepAliveOscillator := None, sourceNode := None, destinationNode := None,
       inputGainNode := None, analyserNode := None, systemStream := None\<rparr>"

definition teardownCalls :: "capture_engine \<Rightarrow> capture_effect list" where
  "teardownCalls s =
     (if switchInterval s \<noteq> None then [ClearInterval] else [])
     @ map (\<lambda>p. RecorderStop (fst p))
         (filter (\<lambda>p. rstate (snd p) \<noteq> Inactive) (enumerate 0 (recorders s)))
     @ (if keepAliveOscillator s = Some True then [OscillatorStop] else [])
     @ (if keepAliveOscillator s \<noteq> None then [Disconnect KeepAliveOscillator] else [])
     @ (if sourceNode s \<noteq> None then [Disconnect SourceNode] else [])
     @ (if inputGainNode s \<noteq> None then [Disconnect InputGainNode] else [])
     @ (if analyserNode s \<noteq> None then [Disconnect AnalyserNode] else [])
     @ (case systemStream s of
          None \<Rightarrow> []
        | Some st \<Rightarrow> map TrackStop [0 ..< length (audioTracks st @ videoTracks st)])"

text \<open>Calls that start a recorder, the rotation timer or the oscillator.\<close>

fun startsCapture :: "capture_effect \<Rightarrow> bool" where
  "startsCapture (RecorderStart i ts) = True"
| "startsCapture (SetInterval n) = True"
| "startsCapture OscillatorStart = True"
| "startsCapture _ = False"

fun isSetInterval :: "capture_effect \<Rightarrow> bool" where
  "isSetInterval (SetInterval n) = True"
| "isSetInterval _ = False"

subsection \<open>Concrete streams, browsers and engines\<close>

definition shared_stream :: media_stream where
  "shared_stream =
     \<lparr>audioTracks = [\<lparr>enabled = True, live = True\<rparr>],
      videoTracks = [\<lparr>enabled = True, live = True\<rparr>]\<rparr>"

definition silent_stream :: media_stream where
  "silent_stream = \<lparr>audioTracks = [], videoTracks = [\<lparr>enabled = True, live = True\<rparr>]\<rparr>"

text \<open>
  A browser that grants the context and the capture of \<open>stream\<close>, in which the graph
  construction throws at \<open>failing\<close> (if given) and, with \<open>noRecorder\<close>, both
  \<open>MediaRecorder\<close> constructor calls throw.
\<close>

definition browser :: "media_stream \<Rightarrow> graph_step option \<Rightarrow> bool \<Rightarrow> capture_env" where
  "browser stream failing noRecorder =
     \<lparr>contextThrows = False, newContextState = Running, resumeRejects = False,
      displayMedia = Inr stream, graphFails = failing, opusThrows = noRecorder,
      plainThrows = noRecorder, dualStartThrows = False, simpleStartThrows = False\<rparr>"

text \<open>A browser like \<open>browser\<close> that refuses \<open>start()\<close> on a recorder of the mixed stream.\<close>

definition browser_refusing_mixed :: capture_env where
  "browser_refusing_mixed = (browser shared_stream None False)\<lparr>dualStartThrows := True\<rparr>"

text \<open>
  A browser in which the first call of the graph construction throws and \<open>start()\<close> is
  refused on a recorder of the raw stream.
\<close>

definition browser_refusing_raw :: capture_env where
  "browser_refusing_raw =
     (browser shared_stream (Some CreateSource) False)\<lparr>simpleStartThrows := True\<rparr>"

text \<open>
  The calls of \<open>n\<close> ticks that start with recorder \<open>a\<close> recording and the other idle:
  each tick starts the other recorder, then stops the one that was recording.
\<close>

fun rotationCalls :: "nat \<Rightarrow> nat \<Rightarrow> capture_effect list" where
  "rotationCalls a 0 = []"
| "rotationCalls a (Suc n) =
     [RecorderStart (1 - a) None, RecorderStop a] @ rotationCalls (1 - a) n"

text \<open>
  The engine right after \<open>startDualRecording\<close>: recorder 0 recording, recorder 1 idle, both
  buffers empty.
\<close>

definition rotating_engine :: capture_engine where
  "rotating_engine =
     (newCaptureEngine True True)
       \<lparr>recorders :=
          [\<lparr>rstate = Recording, timeslice = None, source = MixedStream, opus = True\<rparr>,
           \<lparr>rstate = Inactive, timeslice = None, source = MixedStream, opus = True\<rparr>],
        switchInterval := Some 3000\<rparr>"

section \<open>Properties of the batch transcription\<close>

lemma includes_js_sublist: "includes_js s h = sublist h s"
  by (induction s) (simp_all add: sublist_Cons_right)

lemma denylisted_sublist:
  "denylisted t = (\<exists>h \<in> set WHISPER_HALLUCINATIONS. sublist h t)"
  by (simp add: denylisted_def list_ex_iff includes_js_sublist)

lemma transcribeBody_text:
  "transcribeBody (Inr (text_response t)) = Inr (filterText (Some (trim t)))"
  by (simp add: transcribeBody_def text_response_def)

lemma trim_yoroshiku: "trim yoroshiku = yoroshiku"
  by (simp add: trim_def yoroshiku_def isWhiteSpace_def)

lemma trim_goshichou: "trim goshichou = goshichou"
  by (simp add: trim_def goshichou_def isWhiteSpace_def)

lemma trim_padded: "trim padded = [0x0061]"
  by (simp add: trim_def padded_def isWhiteSpace_def)

lemma yoroshiku_clean: "\<not> denylisted yoroshiku"
  by (simp add: denylisted_def yoroshiku_def WHISPER_HALLUCINATIONS_def)

lemma goshichou_listed: "denylisted goshichou"
  by (simp add: denylisted_def goshichou_def WHISPER_HALLUCINATIONS_def)

lemma letter_clean: "\<not> denylisted [0x0061]"
  by (simp add: denylisted_def WHISPER_HALLUCINATIONS_def)

lemma some_key_nonempty: "some_key \<noteq> []"
  by (simp add: some_key_def)

lemma yoroshiku_nonempty: "yoroshiku \<noteq> []"
  by (simp add: yoroshiku_def)

lemma goshichou_nonempty: "goshichou \<noteq> []"
  by (simp add: goshichou_def)

lemma transcribe_text_response:
  assumes "groqApiKey \<noteq> []"
    and "service audioBlob groqApiKey = Inr resp"
    and "ok resp"
    and "json_body resp = Inr (JObj props)"
    and "map_of props key_text = Some (JStr t)"
  shows "transcribeWithGroq service audioBlob groqApiKey = Inr (filterText (Some (trim t)))"
  using assms by (simp add: transcribeWithGroq_def transcribeBody_def)

text \<open>
  C2, as amended. When the service answers OK with a JSON object whose \<open>text\<close> is the string
  \<open>t\<close>, the result is discarded (\<open>null\<close>) exactly when the trimmed text is empty or
  contains an entry of the denylist as a substring, and otherwise the result is the
  trimmed text. The text \<open>goshichou\<close> (the first entry of the denylist) is discarded, and
  \<open>yoroshiku\<close> is returned as it is.
\<close>

theorem hallucination_filter_returns_trimmed:
  assumes "groqApiKey \<noteq> []"
    and "service audioBlob groqApiKey = Inr resp"
    and "ok resp"
    and "json_body resp = Inr (JObj props)"
    and "map_of props key_text = Some (JStr t)"
  shows "transcribeWithGroq service audioBlob groqApiKey =
           Inr (if trim t = [] \<or> (\<exists>h \<in> set WHISPER_HALLUCINATIONS. sublist h (trim t))
                then None else Some (trim t))
       \<and> (t = goshichou \<longrightarrow> transcribeWithGroq service audioBlob groqApiKey = Inr None)
       \<and> (t = yoroshiku \<longrightarrow> transcribeWithGroq service audioBlob groqApiKey = Inr (Some t))"
proof -
  have r: "transcribeWithGroq service audioBlob groqApiKey = Inr (filterText (Some (trim t)))"
    using assms by (rule transcribe_text_response)
  have general: "filterText (Some (trim t)) =
      (if trim t = [] \<or> (\<exists>h \<in> set WHISPER_HALLUCINATIONS. sublist h (trim t))
       then None else Some (trim t))"
    by (simp add: filterText_def denylisted_sublist)
  have g: "filterText (Some (trim goshichou)) = None"
    by (simp add: filterText_def trim_goshichou goshichou_listed)
  have y: "filterText (Some (trim yoroshiku)) = Some yoroshiku"
    by (simp add: filterText_def trim_yoroshiku yoroshiku_clean yoroshiku_nonempty)
  have c1: "transcribeWithGroq service audioBlob groqApiKey =
      Inr (if trim t = [] \<or> (\<exists>h \<in> set WHISPER_HALLUCINATIONS. sublist h (trim t))
           then None else Some (trim t))"
    using r general by simp
  have c2: "t = goshichou \<longrightarrow> transcribeWithGroq service audioBlob groqApiKey = Inr None"
    using r g by simp
  have c3: "t = yoroshiku \<longrightarrow> transcribeWithGroq service audioBlob groqApiKey = Inr (Some t)"
    using r y by simp
  from c1 c2 c3 show ?thesis
    by blast
qed

theorem hallucination_filter_returns_trimmed_witness:
  "some_key \<noteq> []
   \<and> serve_text yoroshiku [] some_key = Inr (text_response yoroshiku)
   \<and> ok (text_response yoroshiku)
   \<and> json_body (text_response yoroshiku) = Inr (JObj [(key_text, JStr yoroshiku)])
   \<and> map_of [(key_text, JStr yoroshiku)] key_text = Some (JStr yoroshiku)
   \<and> transcribeWithGroq (serve_text yoroshiku) [] some_key = Inr (Some yoroshiku)
   \<and> transcribeWithGroq (serve_text goshichou) [] some_key = Inr None"
proof -
  have k: "some_key \<noteq> []"
    by (rule some_key_nonempty)
  have s: "serve_text t [] some_key = Inr (text_response t)" for t
    by (simp add: serve_text_def)
  have o: "ok (text_response t)" for t
    by (simp add: text_response_def)
  have j: "json_body (text_response t) = Inr (JObj [(key_text, JStr t)])" for t
    by (simp add: text_response_def)
  have m: "map_of [(key_text, JStr t)] key_text = Some (JStr t)" for t
    by simp
  have y: "transcribeWithGroq (serve_text yoroshiku) [] some_key = Inr (Some yoroshiku)"
    using hallucination_filter_returns_trimmed [of some_key "serve_text yoroshiku" "[]"
        "text_response yoroshiku" "[(key_text, JStr yoroshiku)]" yoroshiku, OF k s o j m]
    by blast
  have g: "transcribeWithGroq (serve_text goshichou) [] some_key = Inr None"
    using hallucination_filter_returns_trimmed [of some_key "serve_text goshichou" "[]"
        "text_response goshichou" "[(key_text, JStr goshichou)]" goshichou, OF k s o j m]
    by blast
  show ?thesis
    using k s o j m y g by simp
qed

text \<open>
  C2 as stated fails on a text with surrounding white space: for the response text
  \<open>padded\<close> (a space, then the letter a) the trimmed text is neither empty nor
  denylisted, yet the result is not that text but its trimmed form.
\<close>

theorem hallucination_filter_changes_padded_text:
  "\<not> (trim padded = [] \<or> denylisted (trim padded))
   \<and> transcribeWithGroq (serve_text padded) [] some_key \<noteq> Inr (Some padded)
   \<and> transcribeWithGroq (serve_text padded) [] some_key = Inr (Some [0x0061])"
proof -
  have "[0x0061] \<noteq> padded"
    by (simp add: padded_def)
  then show ?thesis
    by (simp add: transcribeWithGroq_def serve_text_def transcribeBody_text some_key_nonempty
        filterText_def trim_padded letter_clean)
qed

text \<open>
  C3. The promise returned by \<open>transcribeWithGroq\<close> never rejects: for every service,
  blob and key it settles to a value. With no API key that value is \<open>null\<close>; so it is
  for a response that is not OK, and whenever anything inside the \<open>try\<close> block throws
  (the fetch, reading the body, parsing it, or reading the text out of it).
\<close>

theorem transcribeWithGroq_never_throws:
  "(\<exists>r. transcribeWithGroq service audioBlob groqApiKey = Inr r)
   \<and> transcribeWithGroq service audioBlob [] = Inr None
   \<and> (service audioBlob groqApiKey = Inr resp \<and> \<not> ok resp \<longrightarrow>
        transcribeWithGroq service audioBlob groqApiKey = Inr None)
   \<and> (transcribeBody (service audioBlob groqApiKey) = Inl e \<longrightarrow>
        transcribeWithGroq service audioBlob groqApiKey = Inr None)"
  by (auto simp: transcribeWithGroq_def transcribeBody_def split: sum.splits)

theorem transcribeWithGroq_never_throws_witness:
  "serve_status 500 [] some_key =
      Inr \<lparr>ok = False, status = 500, text_body = Inr [], json_body = Inl BodyRejected\<rparr>
   \<and> \<not> ok \<lparr>ok = False, status = 500, text_body = Inr [], json_body = Inl BodyRejected\<rparr>
   \<and> transcribeWithGroq (serve_status 500) [] some_key = Inr None
   \<and> transcribeBody (serve_nothing [] some_key) = Inl FetchRejected
   \<and> transcribeWithGroq serve_nothing [] some_key = Inr None"
  using transcribeWithGroq_never_throws [of "serve_status 500" "[]" some_key
      "\<lparr>ok = False, status = 500, text_body = Inr [], json_body = Inl BodyRejected\<rparr>" TypeError]
    transcribeWithGroq_never_throws [of serve_nothing "[]" some_key "text_response []" FetchRejected]
  by (simp add: serve_status_def serve_nothing_def transcribeBody_def)

section \<open>Properties of the continuous recognition\<close>

subsection \<open>Result delivery\<close>

lemma collect_window:
  "list_all (\<lambda>r. alternatives r \<noteq> []) (drop i rs) \<Longrightarrow>
   collect rs i f t =
     Inr (f @ concat (map firstTranscript (filter isFinal (drop i rs))),
          t @ concat (map firstTranscript (filter (\<lambda>r. \<not> isFinal r) (drop i rs))))"
proof (induction rs i f t rule: collect.induct)
  case (1 rs i finalText interimText)
  show ?case
  proof (cases "i < length rs")
    case False
    then show ?thesis by (simp add: collect.simps [of rs i])
  next
    case True
    then have d: "drop i rs = rs ! i # drop (Suc i) rs"
      by (simp add: Cons_nth_drop_Suc)
    with "1.prems" obtain a other where a: "alternatives (rs ! i) = a # other"
      by (cases "alternatives (rs ! i)") auto
    from "1.prems" d have rest: "list_all (\<lambda>r. alternatives r \<noteq> []) (drop (Suc i) rs)"
      by simp
    show ?thesis
    proof (cases "isFinal (rs ! i)")
      case True
      with \<open>i < length rs\<close> a "1.IH"(1) [OF \<open>i < length rs\<close> a True rest] d show ?thesis
        by (simp add: firstTranscript_def collect.simps [of rs i])
    next
      case False
      with \<open>i < length rs\<close> a "1.IH"(2) [OF \<open>i < length rs\<close> a False rest] d show ?thesis
        by (simp add: firstTranscript_def collect.simps [of rs i])
    qed
  qed
qed

text \<open>
  C7. On an update whose window (the results from \<open>resultIndex\<close> onward) holds results
  with at least one alternative each, \<open>onresult\<close> makes these callbacks and no others, in
  this order: the concatenated interim text of the window as an interim result, if it is
  not empty; then the concatenated final text of the window as one final result, if it is
  not empty, followed at once by an empty interim result.
\<close>

theorem onresult_partitions_window:
  assumes "list_all (\<lambda>r. alternatives r \<noteq> []) (window event)"
  shows "recognition_onresult event =
      Inr ((if interimTextOf event \<noteq> [] then [CallbackInterimResult (interimTextOf event)] else [])
           @ (if finalTextOf event \<noteq> []
              then [CallbackFinalResult (finalTextOf event), CallbackInterimResult []]
              else []))"
  using collect_window [of "resultIndex event" "results event" "[]" "[]"] assms
  by (simp add: recognition_onresult_def window_def finalTextOf_def interimTextOf_def)

theorem onresult_partitions_window_witness:
  "list_all (\<lambda>r. alternatives r \<noteq> []) (window sample_event)
   \<and> recognition_onresult sample_event =
       Inr [CallbackInterimResult [0x0063], CallbackFinalResult [0x0062, 0x0064],
            CallbackInterimResult []]"
proof -
  have w: "list_all (\<lambda>r. alternatives r \<noteq> []) (window sample_event)"
    by (simp add: window_def sample_event_def)
  have f: "finalTextOf sample_event = [0x0062, 0x0064]"
    by (simp add: finalTextOf_def window_def sample_event_def firstTranscript_def)
  have i: "interimTextOf sample_event = [0x0063]"
    by (simp add: interimTextOf_def window_def sample_event_def firstTranscript_def)
  from onresult_partitions_window [OF w] w show ?thesis
    by (simp add: f i)
qed

subsection \<open>Start on a running session\<close>

lemma step_keeps_instance:
  "(recognition s \<noteq> None \<longrightarrow> supported) \<and> (isRunning s \<longrightarrow> recognition s \<noteq> None) \<Longrightarrow>
   (recognition (fst (step supported i s)) \<noteq> None \<longrightarrow> supported)
   \<and> (isRunning (fst (step supported i s)) \<longrightarrow> recognition (fst (step supported i s)) \<noteq> None)"
  by (cases i)
    (auto simp: start_def stop_def recognition_onstart_def recognition_onend_def
      recognition_onerror_def timeout_fires_def Let_def split: list.splits sum.splits)

lemma run_keeps_instance:
  "(recognition s \<noteq> None \<longrightarrow> supported) \<and> (isRunning s \<longrightarrow> recognition s \<noteq> None) \<Longrightarrow>
   (recognition (run supported ins s) \<noteq> None \<longrightarrow> supported)
   \<and> (isRunning (run supported ins s) \<longrightarrow> recognition (run supported ins s) \<noteq> None)"
proof (induction ins arbitrary: s)
  case Nil
  then show ?case by simp
next
  case (Cons i ins)
  from Cons.prems have "(recognition (fst (step supported i s)) \<noteq> None \<longrightarrow> supported)
   \<and> (isRunning (fst (step supported i s)) \<longrightarrow> recognition (fst (step supported i s)) \<noteq> None)"
    by (rule step_keeps_instance)
  then show ?case
    using Cons.IH by simp
qed

lemma running_is_supported:
  "isRunning (run supported ins newSpeechEngine) \<Longrightarrow> supported"
proof -
  assume r: "isRunning (run supported ins newSpeechEngine)"
  have "(recognition newSpeechEngine \<noteq> None \<longrightarrow> supported)
      \<and> (isRunning newSpeechEngine \<longrightarrow> recognition newSpeechEngine \<noteq> None)"
    by (simp add: newSpeechEngine_def)
  from run_keeps_instance [OF this, of ins] r show supported
    by blast
qed

lemma start_when_running:
  "supported \<Longrightarrow> isRunning s \<Longrightarrow> start supported startThrows s = (True, s, [])"
  by (simp add: start_def)

text \<open>
  C10. In every state the engine can reach from its construction, by any calls, signals
  and timers, in which \<open>isRunning\<close> holds, \<open>start()\<close> returns \<open>true\<close>, makes no call at
  all (no new instance, no handler, no callback) and leaves the engine as it is.
\<close>

theorem start_on_running_session_is_noop:
  "isRunning (run supported ins newSpeechEngine) \<Longrightarrow>
   start supported startThrows (run supported ins newSpeechEngine)
     = (True, run supported ins newSpeechEngine, [])"
  using running_is_supported [of supported ins] by (simp add: start_when_running)

theorem start_on_running_session_is_noop_witness:
  "isRunning (run True [CallStart False, SignalStart] newSpeechEngine)
   \<and> start True False (run True [CallStart False, SignalStart] newSpeechEngine)
       = (True, run True [CallStart False, SignalStart] newSpeechEngine, [])"
proof -
  have r: "isRunning (run True [CallStart False, SignalStart] newSpeechEngine)"
    by (simp add: start_def newSpeechEngine_def recognition_onstart_def Let_def)
  from start_on_running_session_is_noop [OF r, of False] r show ?thesis
    by blast
qed

subsection \<open>Restart after termination\<close>

text \<open>
  What holds of the restart logic: an ended signal on a session that is not stopped calls
  \<open>start()\<close> on the instance once and at once, with no timer; an error signal sets one
  timer of 1000 ms, and that timer calls \<open>start()\<close> once; and on a stopped session no
  signal of the primitive leads to such a call or to a timer.
\<close>

lemma ended_restarts_once:
  "shouldRestart s \<Longrightarrow> recognition s = Some r \<Longrightarrow>
   step supported SignalEnd s = (s\<lparr>isRunning := False\<rparr>, [RecognitionStart r])"
  by (simp add: recognition_onend_def tryRestart_def)

lemma error_restarts_after_delay:
  "shouldRestart s \<Longrightarrow> recognition s = Some r \<Longrightarrow> pendingTimeouts s = [] \<Longrightarrow>
   trace supported [SignalError, TimeoutFires] s = [[SetTimeout 1000], [RecognitionStart r]]
   \<and> run supported [SignalError, TimeoutFires] s = s"
  by (simp add: recognition_onerror_def timeout_fires_def tryRestart_def)

lemma signal_when_stopped:
  "\<not> shouldRestart s \<Longrightarrow> isSignal i \<Longrightarrow>
   \<not> shouldRestart (fst (step supported i s))
   \<and> pendingTimeouts (fst (step supported i s)) = pendingTimeouts s
   \<and> \<not> list_ex isRestartAttempt (snd (step supported i s))"
  by (cases i)
    (auto simp: recognition_onstart_def recognition_onend_def recognition_onerror_def
      recognition_onresult_def Let_def split: sum.splits prod.splits)

lemma no_restart_by_signals_after_stop:
  "\<not> shouldRestart s \<Longrightarrow> list_all isSignal ins \<Longrightarrow>
   list_all (\<lambda>effs. \<not> list_ex isRestartAttempt effs) (trace supported ins s)"
proof (induction ins arbitrary: s)
  case Nil
  then show ?case by simp
next
  case (Cons i ins)
  then have "isSignal i" and rest: "list_all isSignal ins"
    by simp_all
  from signal_when_stopped [OF Cons.prems(1) \<open>isSignal i\<close>, of supported]
  have a: "\<not> shouldRestart (fst (step supported i s))"
    and b: "\<not> list_ex isRestartAttempt (snd (step supported i s))"
    by simp_all
  from Cons.IH [OF a rest] b show ?case
    by simp
qed

lemma stop_clears_intent: "\<not> shouldRestart (fst (stop s)) \<and> \<not> isRunning (fst (stop s))"
  by (simp add: stop_def Let_def)

text \<open>
  C1, at the input where it fails. After \<open>start()\<close>, the started signal, an error signal
  and then \<open>stop()\<close>, the session is stopped (\<open>shouldRestart\<close> is false and the liveness
  query answers false), but the timer set by the error handler is still pending. When it
  fires, its callback calls \<open>start()\<close> on the recognition instance without looking at
  \<open>shouldRestart\<close>: a restart attempt after \<open>stop()\<close>, with no call of \<open>start()\<close> on the
  engine in between. Once the primitive signals that it has started, the engine reports
  running again.
\<close>

theorem restart_attempt_after_stop:
  "trace True [CallStart False, SignalStart, SignalError, CallStop, TimeoutFires] newSpeechEngine
     = [[Construct 0, RecognitionStart 0], [CallbackStart], [SetTimeout 1000],
        [RecognitionStop 0], [RecognitionStart 0]]
   \<and> \<not> shouldRestart (run True [CallStart False, SignalStart, SignalError, CallStop] newSpeechEngine)
   \<and> \<not> getIsRunning (run True [CallStart False, SignalStart, SignalError, CallStop] newSpeechEngine)
   \<and> getIsRunning (run True [CallStart False, SignalStart, SignalError, CallStop, TimeoutFires, SignalStart] newSpeechEngine)"
  by (simp add: start_def newSpeechEngine_def recognition_onstart_def Let_def stop_def
      recognition_onerror_def timeout_fires_def tryRestart_def getIsRunning_def)

subsection \<open>Liveness query\<close>

lemma quiet_step:
  "\<not> getIsRunning s \<Longrightarrow> \<not> isStart i \<Longrightarrow> \<not> getIsRunning (fst (step supported i s))"
  by (cases i)
    (auto simp: getIsRunning_def stop_def recognition_onend_def recognition_onerror_def
      timeout_fires_def Let_def split: sum.splits list.splits)

lemma quiet_run:
  "\<not> getIsRunning s \<Longrightarrow> list_all (\<lambda>i. \<not> isStart i) ins \<Longrightarrow> \<not> getIsRunning (run supported ins s)"
proof (induction ins arbitrary: s)
  case Nil
  then show ?case by simp
next
  case (Cons i ins)
  then show ?case
    using quiet_step [of s i supported] by simp
qed

text \<open>
  C9. \<open>getIsRunning\<close> answers true exactly when the engine has seen the primitive start
  and not end (\<open>isRunning\<close>) or intends to be running (\<open>shouldRestart\<close>, set by \<open>start()\<close>
  and cleared by \<open>stop()\<close>). After an ended signal on a session that is not stopped it
  answers true although \<open>isRunning\<close> is false. Right after \<open>stop()\<close> it answers false, and
  it keeps answering false whatever ended, error and result signals and timers follow, as
  long as neither \<open>start()\<close> is called nor the primitive signals a start.
\<close>

theorem liveness_query:
  "getIsRunning s = (isRunning s \<or> shouldRestart s)
   \<and> (shouldRestart s \<longrightarrow>
        getIsRunning (fst (recognition_onend s)) \<and> \<not> isRunning (fst (recognition_onend s)))
   \<and> \<not> getIsRunning (fst (stop s))
   \<and> (list_all (\<lambda>i. \<not> isStart i) ins \<longrightarrow> \<not> getIsRunning (run supported ins (fst (stop s))))"
proof -
  have a: "\<not> getIsRunning (fst (stop s))"
    by (simp add: getIsRunning_def stop_def Let_def)
  have b: "shouldRestart s \<longrightarrow>
        getIsRunning (fst (recognition_onend s)) \<and> \<not> isRunning (fst (recognition_onend s))"
    by (simp add: getIsRunning_def recognition_onend_def Let_def)
  have c: "getIsRunning s = (isRunning s \<or> shouldRestart s)"
    by (simp add: getIsRunning_def)
  have d: "list_all (\<lambda>i. \<not> isStart i) ins \<longrightarrow> \<not> getIsRunning (run supported ins (fst (stop s)))"
    using quiet_run [OF a, of ins supported] by blast
  from a b c d show ?thesis
    by blast
qed

theorem liveness_query_witness:
  "shouldRestart (run True [CallStart False, SignalStart] newSpeechEngine)
   \<and> getIsRunning (fst (recognition_onend (run True [CallStart False, SignalStart] newSpeechEngine)))
   \<and> \<not> isRunning (fst (recognition_onend (run True [CallStart False, SignalStart] newSpeechEngine)))
   \<and> list_all (\<lambda>i. \<not> isStart i) [SignalEnd, SignalError, TimeoutFires]
   \<and> \<not> getIsRunning (run True [SignalEnd, SignalError, TimeoutFires]
         (fst (stop (run True [CallStart False, SignalStart] newSpeechEngine))))"
proof -
  have r: "shouldRestart (run True [CallStart False, SignalStart] newSpeechEngine)"
    by (simp add: start_def newSpeechEngine_def recognition_onstart_def Let_def)
  have q: "list_all (\<lambda>i. \<not> isStart i) [SignalEnd, SignalError, TimeoutFires]"
    by simp
  from liveness_query [of "run True [CallStart False, SignalStart] newSpeechEngine"
      "[SignalEnd, SignalError, TimeoutFires]" True] r q
  show ?thesis
    by blast
qed

section \<open>Properties of the audio capture\<close>

subsection \<open>Stopping the other channel\<close>

lemma stopEach_total:
  "stopEach i rs =
     (map (\<lambda>p. RecorderStop (fst p)) (filter (\<lambda>p. rstate (snd p) \<noteq> Inactive) (enumerate i rs)), None)"
  by (induction rs arbitrary: i) (simp_all add: recorder_stop_def)

lemma stopRecorders_total:
  "stopRecorders s =
     (s\<lparr>recorders := [], recorderChunks := emptyChunks\<rparr>,
      map (\<lambda>p. RecorderStop (fst p)) (filter (\<lambda>p. rstate (snd p) \<noteq> Inactive) (enumerate 0 (recorders s))),
      None)"
  by (simp add: stopRecorders_def stopEach_total proceed_def)

lemma clearSwitchInterval_result:
  "clearSwitchInterval s =
     (s\<lparr>switchInterval := None\<rparr>, (if switchInterval s \<noteq> None then [ClearInterval] else []), None)"
  by (cases "switchInterval s") (simp_all add: clearSwitchInterval_def proceed_def)

lemma releaseOscillator_result:
  "releaseOscillator s =
     (s\<lparr>keepAliveOscillator := None\<rparr>,
      (if keepAliveOscillator s = Some True then [OscillatorStop] else [])
      @ (if keepAliveOscillator s \<noteq> None then [Disconnect KeepAliveOscillator] else []),
      None)"
  by (cases "keepAliveOscillator s")
    (simp_all add: releaseOscillator_def proceed_def oscillator_stop_def)

lemma releaseStream_result:
  "releaseStream s =
     (s\<lparr>systemStream := None\<rparr>,
      (case systemStream s of None \<Rightarrow> []
       | Some st \<Rightarrow> map TrackStop [0 ..< length (audioTracks st @ videoTracks st)]),
      None)"
  by (cases "systemStream s") (simp_all add: releaseStream_def proceed_def)

lemma stopSystemAudio_result:
  "stopSystemAudio s = (tornDown s, teardownCalls s @ notifyStateChange (tornDown s), None)"
  by (simp add: stopSystemAudio_def andThen_def clearSwitchInterval_result stopRecorders_total
      releaseOscillator_result releaseNodes_def releaseStream_result proceed_def tornDown_def
      teardownCalls_def)

lemma tornDown_twice: "tornDown (tornDown s) = tornDown s"
  by (simp add: tornDown_def)

lemma teardownCalls_tornDown: "teardownCalls (tornDown s) = []"
  by (simp add: tornDown_def teardownCalls_def enumerate_eq_zip)

lemma tornDown_new: "tornDown (newCaptureEngine c n) = newCaptureEngine c n"
  by (simp add: tornDown_def newCaptureEngine_def)

text \<open>
  C8. \<open>stopSystemAudio\<close> throws in no state of the engine, started or not. After it the
  derived state reports \<open>systemAudioActive = false\<close>; the oscillator, the source, gain,
  analyser and destination nodes, the stream and the rotation timer are \<open>null\<close>, the
  recorder list is empty and the chunk buffers are two empty buffers. The calls it makes
  are the teardown calls of the state it found (the timer cleared, every recorder that is
  not inactive stopped, the started oscillator stopped, the nodes disconnected, every
  track stopped) and the state notification. Called again, or on a new engine, it throws
  nothing, changes nothing and only notifies.
\<close>

theorem stopSystemAudio_total_idempotent:
  "snd (snd (stopSystemAudio s)) = None
   \<and> systemAudioActive (getState (fst (stopSystemAudio s))) = False
   \<and> keepAliveOscillator (fst (stopSystemAudio s)) = None
   \<and> sourceNode (fst (stopSystemAudio s)) = None
   \<and> inputGainNode (fst (stopSystemAudio s)) = None
   \<and> analyserNode (fst (stopSystemAudio s)) = None
   \<and> destinationNode (fst (stopSystemAudio s)) = None
   \<and> recorders (fst (stopSystemAudio s)) = []
   \<and> recorderChunks (fst (stopSystemAudio s)) = emptyChunks
   \<and> switchInterval (fst (stopSystemAudio s)) = None
   \<and> systemStream (fst (stopSystemAudio s)) = None
   \<and> fst (snd (stopSystemAudio s)) = teardownCalls s @ notifyStateChange (fst (stopSystemAudio s))
   \<and> stopSystemAudio (fst (stopSystemAudio s))
       = (fst (stopSystemAudio s), notifyStateChange (fst (stopSystemAudio s)), None)
   \<and> stopSystemAudio (newCaptureEngine onChunk onState)
       = (newCaptureEngine onChunk onState, notifyStateChange (newCaptureEngine onChunk onState), None)"
proof -
  have fields: "systemAudioActive (getState (tornDown s)) = False
      \<and> keepAliveOscillator (tornDown s) = None \<and> sourceNode (tornDown s) = None
      \<and> inputGainNode (tornDown s) = None \<and> analyserNode (tornDown s) = None
      \<and> destinationNode (tornDown s) = None \<and> recorders (tornDown s) = []
      \<and> recorderChunks (tornDown s) = emptyChunks \<and> switchInterval (tornDown s) = None
      \<and> systemStream (tornDown s) = None"
    by (simp add: tornDown_def getState_def)
  have again_any: "stopSystemAudio (tornDown t) = (tornDown t, notifyStateChange (tornDown t), None)" for t
    by (simp add: stopSystemAudio_result [of "tornDown t"] tornDown_twice teardownCalls_tornDown)
  have again: "stopSystemAudio (tornDown s) = (tornDown s, notifyStateChange (tornDown s), None)"
    by (rule again_any)
  have fresh: "stopSystemAudio (newCaptureEngine onChunk onState)
       = (newCaptureEngine onChunk onState, notifyStateChange (newCaptureEngine onChunk onState), None)"
    using again_any [of "newCaptureEngine onChunk onState"] by (simp add: tornDown_new)
  have r: "stopSystemAudio s = (tornDown s, teardownCalls s @ notifyStateChange (tornDown s), None)"
    by (rule stopSystemAudio_result)
  have fs: "fst (stopSystemAudio s) = tornDown s"
    and effs: "fst (snd (stopSystemAudio s)) = teardownCalls s @ notifyStateChange (tornDown s)"
    and err: "snd (snd (stopSystemAudio s)) = None"
    by (simp_all add: r)
  show ?thesis
    unfolding fs effs err using fields again fresh by blast
qed

subsection \<open>Rotation\<close>

lemma nextIndex_swaps:
  "a < 2 \<Longrightarrow> (a + 1) mod 2 = 1 - (a::nat)"
  by (cases a) auto

lemma onSwitchInterval_result:
  assumes two: "length (recorders s) = 2"
    and cur: "activeRecorderIndex s < 2"
  shows "onSwitchInterval s =
          (s\<lparr>recorders :=
               ((recorders s)[1 - activeRecorderIndex s :=
                  (if rstate (recorders s ! (1 - activeRecorderIndex s)) = Inactive
                   then (recorders s ! (1 - activeRecorderIndex s))\<lparr>rstate := Recording, timeslice := None\<rparr>
                   else recorders s ! (1 - activeRecorderIndex s))])
               [activeRecorderIndex s :=
                  (recorders s ! activeRecorderIndex s)\<lparr>rstate := Inactive\<rparr>],
              activeRecorderIndex := 1 - activeRecorderIndex s\<rparr>,
           (if rstate (recorders s ! (1 - activeRecorderIndex s)) = Inactive
            then [RecorderStart (1 - activeRecorderIndex s) None] else [])
           @ (if rstate (recorders s ! activeRecorderIndex s) \<noteq> Inactive
              then [RecorderStop (activeRecorderIndex s)] else []),
           None)"
proof -
  obtain r0 r1 where rs: "recorders s = [r0, r1]"
    using two by (auto simp: length_Suc_conv numeral_2_eq_2)
  from cur have "activeRecorderIndex s = 0 \<or> activeRecorderIndex s = 1"
    by auto
  then show ?thesis
  proof
    assume a: "activeRecorderIndex s = 0"
    show ?thesis
      by (cases "rstate r0 = Inactive"; cases "rstate r1 = Inactive")
        (simp_all add: onSwitchInterval_def Let_def a rs recorderAt_def startAt_def stopAt_def
          recorder_start_def recorder_stop_def andThen_def proceed_def throw_def)
  next
    assume a: "activeRecorderIndex s = 1"
    show ?thesis
      by (cases "rstate r0 = Inactive"; cases "rstate r1 = Inactive")
        (simp_all add: onSwitchInterval_def Let_def a rs recorderAt_def startAt_def stopAt_def
          recorder_start_def recorder_stop_def andThen_def proceed_def throw_def)
  qed
qed

lemma recorder_onstop_result:
  "recorder_onstop index now s =
     (s\<lparr>recorderChunks := (recorderChunks s)(index \<mapsto> [])\<rparr>,
      (if newBlob (recorderChunks s index) \<noteq> [] \<and> onChunkCallback s
       then [CallbackChunk (newBlob (recorderChunks s index)) now] else []),
      None)"
  by (simp add: recorder_onstop_def Let_def proceed_def)

lemma buffered_data_reaches_chunk:
  assumes "recorderChunks s index = Some chunks" and "data \<noteq> []" and "onChunkCallback s"
  shows "andThen (recorder_ondataavailable index data s) (recorder_onstop index now) =
          (s\<lparr>recorderChunks := (recorderChunks s)(index \<mapsto> [])\<rparr>,
           [CallbackChunk (concat chunks @ data) now], None)"
  using assms
  by (simp add: recorder_ondataavailable_def recorder_onstop_def andThen_def proceed_def
      newBlob_def Let_def)

lemma startDualRecording_result:
  assumes ctor: "newRecorder env MixedStream = Inr r"
    and startOk: "\<not> dualStartThrows env"
  shows "startDualRecording env s =
          (s\<lparr>recorders := [r\<lparr>rstate := Recording, timeslice := None\<rparr>, r],
             activeRecorderIndex := 0, switchInterval := Some 3000\<rparr>,
           [RecorderStart 0 None, SetInterval 3000], None)"
proof -
  from ctor have i: "rstate r = Inactive"
    by (auto simp: newRecorder_def split: if_splits)
  show ?thesis
    by (simp add: startDualRecording_def ctor startOk Let_def startAt_def recorderAt_def
        recorder_start_def i andThen_def proceed_def)
qed

lemma andThen_quiet: "andThen (s, [], None) f = f s"
  by (cases "f s") (simp add: andThen_def)

lemma deliverAll_result:
  "recorderChunks s index = Some chunks \<Longrightarrow>
   deliverAll index ds s =
     (s\<lparr>recorderChunks := (recorderChunks s)(index \<mapsto> chunks @ filter (\<lambda>d. d \<noteq> []) ds)\<rparr>,
      [], None)"
proof (induction ds arbitrary: s chunks)
  case Nil
  have "(recorderChunks s)(index \<mapsto> chunks) = recorderChunks s"
    using Nil by (rule map_upd_triv)
  then show ?case
    by (simp add: proceed_def)
next
  case (Cons d ds)
  show ?case
  proof (cases "d = []")
    case True
    then have "recorder_ondataavailable index d s = (s, [], None)"
      by (simp add: recorder_ondataavailable_def proceed_def)
    with True Cons.IH [OF Cons.prems] show ?thesis
      by (simp add: andThen_def)
  next
    case False
    let ?s1 = "s\<lparr>recorderChunks := (recorderChunks s)(index \<mapsto> chunks @ [d])\<rparr>"
    from False Cons.prems have a: "recorder_ondataavailable index d s = (?s1, [], None)"
      by (simp add: recorder_ondataavailable_def proceed_def)
    have c: "recorderChunks ?s1 index = Some (chunks @ [d])"
      by simp
    have u: "(recorderChunks ?s1)(index \<mapsto> (chunks @ [d]) @ filter (\<lambda>d. d \<noteq> []) ds)
        = (recorderChunks s)(index \<mapsto> chunks @ filter (\<lambda>d. d \<noteq> []) (d # ds))"
      using False by simp
    have "deliverAll index ds ?s1 =
        (?s1\<lparr>recorderChunks :=
              (recorderChunks ?s1)(index \<mapsto> (chunks @ [d]) @ filter (\<lambda>d. d \<noteq> []) ds)\<rparr>,
         [], None)"
      by (rule Cons.IH [OF c])
    then have r: "deliverAll index ds ?s1 =
        (s\<lparr>recorderChunks :=
              (recorderChunks s)(index \<mapsto> chunks @ filter (\<lambda>d. d \<noteq> []) (d # ds))\<rparr>,
         [], None)"
      unfolding u by simp
    have "deliverAll index (d # ds) s = deliverAll index ds ?s1"
      by (simp only: deliverAll.simps a andThen_quiet)
    also note r
    finally show ?thesis .
  qed
qed

lemma concat_nonempty: "concat (filter (\<lambda>d. d \<noteq> []) ds) = concat ds"
  by (induction ds) simp_all

lemma delivered_segment:
  assumes "recorderChunks s index = Some chunks"
  shows "andThen (deliverAll index ds s) (recorder_onstop index now) =
          (s\<lparr>recorderChunks := (recorderChunks s)(index \<mapsto> [])\<rparr>,
           (if concat chunks @ concat ds \<noteq> [] \<and> onChunkCallback s
            then [CallbackChunk (concat chunks @ concat ds) now] else []),
           None)"
  by (simp add: deliverAll_result [OF assms] andThen_def recorder_onstop_def Let_def
      newBlob_def proceed_def concat_nonempty)

lemma delivered_elsewhere:
  assumes "recorderChunks s index = Some chunks" and "j \<noteq> index"
  shows "recorderChunks (fst (deliverAll index ds s)) j = recorderChunks s j"
  using assms(2) by (simp add: deliverAll_result [OF assms(1)])

lemma onSwitchInterval_alternates:
  assumes two: "length (recorders s) = 2"
    and cur: "activeRecorderIndex s < 2"
    and busy: "rstate (recorders s ! activeRecorderIndex s) = Recording"
    and idle: "rstate (recorders s ! (1 - activeRecorderIndex s)) = Inactive"
  shows "\<exists>s'. onSwitchInterval s =
            (s', [RecorderStart (1 - activeRecorderIndex s) None, RecorderStop (activeRecorderIndex s)], None)
          \<and> length (recorders s') = 2
          \<and> activeRecorderIndex s' = 1 - activeRecorderIndex s
          \<and> rstate (recorders s' ! activeRecorderIndex s') = Recording
          \<and> rstate (recorders s' ! (1 - activeRecorderIndex s')) = Inactive"
proof -
  from cur have ab: "activeRecorderIndex s = 0 \<or> activeRecorderIndex s = 1"
    by auto
  show ?thesis
    unfolding onSwitchInterval_result [OF two cur] using two ab busy idle by auto
qed

lemma ticks_alternate:
  "length (recorders s) = 2 \<Longrightarrow> activeRecorderIndex s < 2 \<Longrightarrow>
   rstate (recorders s ! activeRecorderIndex s) = Recording \<Longrightarrow>
   rstate (recorders s ! (1 - activeRecorderIndex s)) = Inactive \<Longrightarrow>
   snd (snd (ticks n s)) = None
   \<and> fst (snd (ticks n s)) = rotationCalls (activeRecorderIndex s) n
   \<and> activeRecorderIndex (fst (ticks n s)) = (activeRecorderIndex s + n) mod 2
   \<and> length (recorders (fst (ticks n s))) = 2"
proof (induction n arbitrary: s)
  case 0
  then show ?case
    by (simp add: proceed_def)
next
  case (Suc n)
  from onSwitchInterval_alternates [OF Suc.prems] obtain s' where
    t: "onSwitchInterval s =
          (s', [RecorderStart (1 - activeRecorderIndex s) None, RecorderStop (activeRecorderIndex s)], None)"
    and two: "length (recorders s') = 2"
    and a: "activeRecorderIndex s' = 1 - activeRecorderIndex s"
    and busy: "rstate (recorders s' ! activeRecorderIndex s') = Recording"
    and idle: "rstate (recorders s' ! (1 - activeRecorderIndex s')) = Inactive"
    by blast
  from a Suc.prems(2) have cur: "activeRecorderIndex s' < 2"
    by simp
  from Suc.prems(2) have "activeRecorderIndex s = 0 \<or> activeRecorderIndex s = 1"
    by auto
  moreover have "(1 + n) mod 2 = (0 + Suc n) mod 2"
    by simp
  moreover have "(0 + n) mod 2 = (1 + Suc n) mod 2"
    by presburger
  ultimately have m: "(Suc 0 - activeRecorderIndex s + n) mod 2 = Suc (activeRecorderIndex s + n) mod 2"
    by auto
  obtain s'' effs err where r: "ticks n s' = (s'', effs, err)"
    by (cases "ticks n s'") auto
  from Suc.IH [OF two cur busy idle] r have
    "err = None" and "effs = rotationCalls (1 - activeRecorderIndex s) n"
    and "activeRecorderIndex s'' = (1 - activeRecorderIndex s + n) mod 2"
    and "length (recorders s'') = 2"
    by (simp_all add: a)
  then show ?case
    by (simp add: t andThen_def r m)
qed

text \<open>
  C5. The dual recording, once its two recorders are made and the first is started, sets
  the rotation timer to 3000 ms and leaves two recorders with index 0 active. On a tick,
  with two recorders and the active index 0 or 1, the handler throws nothing and makes
  these calls in this order: \<open>start()\<close> on the next recorder if that one is inactive, then
  \<open>stop()\<close> on the current recorder if it is not inactive; afterwards the active index is
  the other one of 0 and 1, the current recorder is inactive and the next is not. So any
  number of ticks after \<open>startDualRecording\<close> throws nothing and alternates: each tick
  starts the idle recorder, then stops the recording one, and the index after \<open>n\<close> ticks
  is \<open>n mod 2\<close>. Data that the recorder of an index delivers is appended to the buffer of
  that index, unless it is empty, and changes no other buffer. When a recorder stops, its
  handler makes one blob of the chunks buffered for its index, empties that buffer, and
  calls the chunk callback with the blob only if the blob is not empty (and a callback
  was given): after deliveries \<open>ds\<close> to an index whose buffer held \<open>chunks\<close>, the blob is
  the bytes of \<open>chunks\<close> followed by the bytes of \<open>ds\<close>, in order.
\<close>

theorem double_buffer_rotation:
  assumes two: "length (recorders s) = 2"
    and cur: "activeRecorderIndex s < 2"
  shows "snd (snd (onSwitchInterval s)) = None
     \<and> fst (snd (onSwitchInterval s)) =
         (if rstate (recorders s ! (1 - activeRecorderIndex s)) = Inactive
          then [RecorderStart (1 - activeRecorderIndex s) None] else [])
         @ (if rstate (recorders s ! activeRecorderIndex s) \<noteq> Inactive
            then [RecorderStop (activeRecorderIndex s)] else [])
     \<and> activeRecorderIndex (fst (onSwitchInterval s)) = 1 - activeRecorderIndex s
     \<and> length (recorders (fst (onSwitchInterval s))) = 2
     \<and> rstate (recorders (fst (onSwitchInterval s)) ! activeRecorderIndex s) = Inactive
     \<and> rstate (recorders (fst (onSwitchInterval s)) ! (1 - activeRecorderIndex s)) \<noteq> Inactive
     \<and> recorder_onstop index now s =
         (s\<lparr>recorderChunks := (recorderChunks s)(index \<mapsto> [])\<rparr>,
          (if newBlob (recorderChunks s index) \<noteq> [] \<and> onChunkCallback s
           then [CallbackChunk (newBlob (recorderChunks s index)) now] else []),
          None)
     \<and> newBlob (Some parts) = concat parts
     \<and> (newRecorder env MixedStream = Inr r \<and> \<not> dualStartThrows env \<longrightarrow>
          switchInterval (fst (startDualRecording env t)) = Some 3000
          \<and> fst (snd (startDualRecording env t)) = [RecorderStart 0 None, SetInterval 3000]
          \<and> length (recorders (fst (startDualRecording env t))) = 2
          \<and> activeRecorderIndex (fst (startDualRecording env t)) = 0
          \<and> recorderChunks (fst (startDualRecording env t)) = recorderChunks t
          \<and> snd (snd (andThen (startDualRecording env t) (ticks n))) = None
          \<and> fst (snd (andThen (startDualRecording env t) (ticks n)))
              = [RecorderStart 0 None, SetInterval 3000] @ rotationCalls 0 n
          \<and> activeRecorderIndex (fst (andThen (startDualRecording env t) (ticks n))) = n mod 2)
     \<and> (recorderChunks s index = Some chunks \<and> data \<noteq> [] \<longrightarrow>
          recorder_ondataavailable index data s =
            (s\<lparr>recorderChunks := (recorderChunks s)(index \<mapsto> chunks @ [data])\<rparr>, [], None))
     \<and> recorder_ondataavailable index [] s = (s, [], None)
     \<and> (recorderChunks s index = Some chunks \<longrightarrow>
          andThen (deliverAll index ds s) (recorder_onstop index now) =
            (s\<lparr>recorderChunks := (recorderChunks s)(index \<mapsto> [])\<rparr>,
             (if concat chunks @ concat ds \<noteq> [] \<and> onChunkCallback s
              then [CallbackChunk (concat chunks @ concat ds) now] else []),
             None))
     \<and> (recorderChunks s index = Some chunks \<and> j \<noteq> index \<longrightarrow>
          recorderChunks (fst (deliverAll index ds s)) j = recorderChunks s j)"
proof -
  from cur have ab: "activeRecorderIndex s = 0 \<or> activeRecorderIndex s = 1"
    by auto
  have tick: "snd (snd (onSwitchInterval s)) = None
     \<and> fst (snd (onSwitchInterval s)) =
         (if rstate (recorders s ! (1 - activeRecorderIndex s)) = Inactive
          then [RecorderStart (1 - activeRecorderIndex s) None] else [])
         @ (if rstate (recorders s ! activeRecorderIndex s) \<noteq> Inactive
            then [RecorderStop (activeRecorderIndex s)] else [])
     \<and> activeRecorderIndex (fst (onSwitchInterval s)) = 1 - activeRecorderIndex s
     \<and> length (recorders (fst (onSwitchInterval s))) = 2
     \<and> rstate (recorders (fst (onSwitchInterval s)) ! activeRecorderIndex s) = Inactive
     \<and> rstate (recorders (fst (onSwitchInterval s)) ! (1 - activeRecorderIndex s)) \<noteq> Inactive"
    unfolding onSwitchInterval_result [OF two cur] using two ab by auto
  have blob: "newBlob (Some parts) = concat parts"
    by (simp add: newBlob_def)
  have timer: "newRecorder env MixedStream = Inr r \<and> \<not> dualStartThrows env \<longrightarrow>
          switchInterval (fst (startDualRecording env t)) = Some 3000
          \<and> fst (snd (startDualRecording env t)) = [RecorderStart 0 None, SetInterval 3000]
          \<and> length (recorders (fst (startDualRecording env t))) = 2
          \<and> activeRecorderIndex (fst (startDualRecording env t)) = 0
          \<and> recorderChunks (fst (startDualRecording env t)) = recorderChunks t
          \<and> snd (snd (andThen (startDualRecording env t) (ticks n))) = None
          \<and> fst (snd (andThen (startDualRecording env t) (ticks n)))
              = [RecorderStart 0 None, SetInterval 3000] @ rotationCalls 0 n
          \<and> activeRecorderIndex (fst (andThen (startDualRecording env t) (ticks n))) = n mod 2"
  proof
    assume a: "newRecorder env MixedStream = Inr r \<and> \<not> dualStartThrows env"
    then have ctor: "newRecorder env MixedStream = Inr r" and ok: "\<not> dualStartThrows env"
      by simp_all
    from ctor have idle: "rstate r = Inactive"
      by (auto simp: newRecorder_def split: if_splits)
    let ?t1 = "t\<lparr>recorders := [r\<lparr>rstate := Recording, timeslice := None\<rparr>, r],
                 activeRecorderIndex := 0, switchInterval := Some 3000\<rparr>"
    have d: "startDualRecording env t = (?t1, [RecorderStart 0 None, SetInterval 3000], None)"
      using ctor ok by (rule startDualRecording_result)
    have h: "length (recorders ?t1) = 2" "activeRecorderIndex ?t1 < 2"
      "rstate (recorders ?t1 ! activeRecorderIndex ?t1) = Recording"
      "rstate (recorders ?t1 ! (1 - activeRecorderIndex ?t1)) = Inactive"
      using idle by simp_all
    obtain t2 effs2 err2 where k: "ticks n ?t1 = (t2, effs2, err2)"
      by (cases "ticks n ?t1") auto
    from ticks_alternate [OF h, of n] k have
      "err2 = None" and "effs2 = rotationCalls 0 n" and "activeRecorderIndex t2 = n mod 2"
      by simp_all
    then have after: "andThen (startDualRecording env t) (ticks n)
        = (t2, [RecorderStart 0 None, SetInterval 3000] @ rotationCalls 0 n, None)"
      and idx: "activeRecorderIndex t2 = n mod 2"
      by (simp_all add: d andThen_def k)
    show "switchInterval (fst (startDualRecording env t)) = Some 3000
          \<and> fst (snd (startDualRecording env t)) = [RecorderStart 0 None, SetInterval 3000]
          \<and> length (recorders (fst (startDualRecording env t))) = 2
          \<and> activeRecorderIndex (fst (startDualRecording env t)) = 0
          \<and> recorderChunks (fst (startDualRecording env t)) = recorderChunks t
          \<and> snd (snd (andThen (startDualRecording env t) (ticks n))) = None
          \<and> fst (snd (andThen (startDualRecording env t) (ticks n)))
              = [RecorderStart 0 None, SetInterval 3000] @ rotationCalls 0 n
          \<and> activeRecorderIndex (fst (andThen (startDualRecording env t) (ticks n))) = n mod 2"
    proof -
      have p1: "switchInterval (fst (startDualRecording env t)) = Some 3000
          \<and> fst (snd (startDualRecording env t)) = [RecorderStart 0 None, SetInterval 3000]
          \<and> length (recorders (fst (startDualRecording env t))) = 2
          \<and> activeRecorderIndex (fst (startDualRecording env t)) = 0
          \<and> recorderChunks (fst (startDualRecording env t)) = recorderChunks t"
        by (simp add: d)
      have p2: "snd (snd (andThen (startDualRecording env t) (ticks n))) = None
          \<and> fst (snd (andThen (startDualRecording env t) (ticks n)))
              = [RecorderStart 0 None, SetInterval 3000] @ rotationCalls 0 n
          \<and> activeRecorderIndex (fst (andThen (startDualRecording env t) (ticks n))) = n mod 2"
        by (simp add: after idx)
      from p1 p2 show ?thesis
        by blast
    qed
  qed
  have one: "recorderChunks s index = Some chunks \<and> data \<noteq> [] \<longrightarrow>
          recorder_ondataavailable index data s =
            (s\<lparr>recorderChunks := (recorderChunks s)(index \<mapsto> chunks @ [data])\<rparr>, [], None)"
    by (simp add: recorder_ondataavailable_def proceed_def)
  have none: "recorder_ondataavailable index [] s = (s, [], None)"
    by (simp add: recorder_ondataavailable_def proceed_def)
  have seg: "recorderChunks s index = Some chunks \<longrightarrow>
          andThen (deliverAll index ds s) (recorder_onstop index now) =
            (s\<lparr>recorderChunks := (recorderChunks s)(index \<mapsto> [])\<rparr>,
             (if concat chunks @ concat ds \<noteq> [] \<and> onChunkCallback s
              then [CallbackChunk (concat chunks @ concat ds) now] else []),
             None)"
    using delivered_segment [of s index chunks ds now] by blast
  have other: "recorderChunks s index = Some chunks \<and> j \<noteq> index \<longrightarrow>
          recorderChunks (fst (deliverAll index ds s)) j = recorderChunks s j"
    using delivered_elsewhere [of s index chunks j ds] by blast
  from tick recorder_onstop_result [of index now s] blob timer one none seg other show ?thesis
    by blast
qed


theorem double_buffer_rotation_witness:
  "length (recorders rotating_engine) = 2
   \<and> activeRecorderIndex rotating_engine < 2
   \<and> fst (snd (onSwitchInterval rotating_engine)) = [RecorderStart 1 None, RecorderStop 0]
   \<and> activeRecorderIndex (fst (onSwitchInterval rotating_engine)) = 1
   \<and> recorderChunks rotating_engine 0 = Some []
   \<and> fst (snd (andThen (deliverAll 0 [[1, 2], [], [3]] rotating_engine) (recorder_onstop 0 7)))
       = [CallbackChunk [1, 2, 3] 7]
   \<and> recorderChunks (fst (deliverAll 0 [[1, 2], [], [3]] rotating_engine)) 1 = Some []
   \<and> newRecorder (browser shared_stream None False) MixedStream
       = Inr \<lparr>rstate = Inactive, timeslice = None, source = MixedStream, opus = True\<rparr>
   \<and> \<not> dualStartThrows (browser shared_stream None False)
   \<and> fst (startDualRecording (browser shared_stream None False) (newCaptureEngine True True))
       = rotating_engine
   \<and> fst (snd (andThen
         (startDualRecording (browser shared_stream None False) (newCaptureEngine True True))
         (ticks 3)))
       = [RecorderStart 0 None, SetInterval 3000, RecorderStart 1 None, RecorderStop 0,
          RecorderStart 0 None, RecorderStop 1, RecorderStart 1 None, RecorderStop 0]"
proof -
  let ?env = "browser shared_stream None False"
  let ?r = "\<lparr>rstate = Inactive, timeslice = None, source = MixedStream, opus = True\<rparr>"
  have two: "length (recorders rotating_engine) = 2"
    by (simp add: rotating_engine_def)
  have cur: "activeRecorderIndex rotating_engine < 2"
    by (simp add: rotating_engine_def newCaptureEngine_def)
  have a: "activeRecorderIndex rotating_engine = 0"
    by (simp add: rotating_engine_def newCaptureEngine_def)
  have r0: "rstate (recorders rotating_engine ! 0) = Recording"
    and r1: "rstate (recorders rotating_engine ! Suc 0) = Inactive"
    by (simp_all add: rotating_engine_def)
  have c0: "recorderChunks rotating_engine 0 = Some []"
    and c1: "recorderChunks rotating_engine 1 = Some []"
    and cb: "onChunkCallback rotating_engine"
    by (simp_all add: rotating_engine_def newCaptureEngine_def emptyChunks_def)
  have n: "newRecorder ?env MixedStream = Inr ?r"
    by (simp add: newRecorder_def browser_def)
  have d: "\<not> dualStartThrows ?env"
    by (simp add: browser_def)
  have calls: "rotationCalls 0 3 =
      [RecorderStart 1 None, RecorderStop 0, RecorderStart 0 None, RecorderStop 1,
       RecorderStart 1 None, RecorderStop 0]"
    by (simp add: numeral_3_eq_3)
  have same: "fst (startDualRecording ?env (newCaptureEngine True True)) = rotating_engine"
    by (simp add: startDualRecording_result [OF n d] rotating_engine_def newCaptureEngine_def)
  note t = double_buffer_rotation [OF two cur, of 0 7 "[]" ?env ?r "newCaptureEngine True True" 3
      "[]" "[1]" "[[1, 2], [], [3]]" 1]
  have tickcalls: "fst (snd (onSwitchInterval rotating_engine)) = [RecorderStart 1 None, RecorderStop 0]"
    using t by (simp add: a r0 r1)
  have idx: "activeRecorderIndex (fst (onSwitchInterval rotating_engine)) = 1"
    using t by (simp add: a)
  have seg: "fst (snd (andThen (deliverAll 0 [[1, 2], [], [3]] rotating_engine) (recorder_onstop 0 7)))
       = [CallbackChunk [1, 2, 3] 7]"
    using t c0 cb by simp
  have other: "recorderChunks (fst (deliverAll 0 [[1, 2], [], [3]] rotating_engine)) 1 = Some []"
    using t c0 c1 by simp
  have run: "fst (snd (andThen (startDualRecording ?env (newCaptureEngine True True)) (ticks 3)))
       = [RecorderStart 0 None, SetInterval 3000, RecorderStart 1 None, RecorderStop 0,
          RecorderStart 0 None, RecorderStop 1, RecorderStart 1 None, RecorderStop 0]"
    using t n d calls by simp
  from two cur tickcalls idx c0 seg other n d same run show ?thesis
    by blast
qed

subsection \<open>Starting the other channel\<close>

lemma context_ready:
  "andThen (ensureContext env s) (resumeContext env) = (s1, effs0, None) \<Longrightarrow>
   audioContext s1 \<noteq> None \<and> effs0 = [] \<and> s1 = s\<lparr>audioContext := audioContext s1\<rparr>"
  by (auto simp: andThen_def ensureContext_def resumeContext_def proceed_def throw_def
      split: option.splits if_splits)

lemma teardownCalls_quiet: "\<not> list_ex startsCapture (teardownCalls s)"
  by (auto simp: teardownCalls_def list_ex_iff split: option.splits)

lemma notify_quiet: "\<not> list_ex startsCapture (notifyStateChange s)"
  by (simp add: notifyStateChange_def)

lemma withStream_silent:
  "audioTracks stream = [] \<Longrightarrow>
   withStream env stream s = (tornDown s, ConsoleWarn # teardownCalls s @ notifyStateChange (tornDown s), Inr False)"
  by (simp add: withStream_def stopSystemAudio_result)

lemma startSystemAudio_silent:
  assumes ctx: "andThen (ensureContext env s) (resumeContext env) = (s1, effs0, None)"
    and cap: "displayMedia env = Inr stream"
    and zero: "audioTracks stream = []"
  shows "startSystemAudio env s =
           (False, tornDown s1,
            ConsoleWarn # teardownCalls (s1\<lparr>systemStream := Some stream\<rparr>) @ notifyStateChange (tornDown s1))"
proof -
  from context_ready [OF ctx] have e: "effs0 = []"
    by simp
  have t: "tornDown (s1\<lparr>systemStream := Some stream\<rparr>) = tornDown s1"
    by (simp add: tornDown_def)
  show ?thesis
    by (simp add: startSystemAudio_def startBody_def ctx cap e withStream_silent [OF zero] t)
qed

text \<open>
  C4. When the steps before the capture do not throw and \<open>getDisplayMedia\<close> gives a stream
  with no audio track, \<open>startSystemAudio\<close> returns \<open>false\<close>. What it does to the engine is
  what \<open>stopSystemAudio\<close> does to the engine holding that stream: every track of the
  stream is stopped and the stream released; afterwards no node of the mix graph, no
  recorder and no rotation timer exists, and no recorder, timer or oscillator was started
  on the way.
\<close>

theorem zero_audio_tracks_fail_start:
  assumes ctx: "andThen (ensureContext env s) (resumeContext env) = (s1, effs0, None)"
    and cap: "displayMedia env = Inr stream"
    and zero: "audioTracks stream = []"
  shows "fst (startSystemAudio env s) = False
       \<and> fst (snd (startSystemAudio env s)) = fst (stopSystemAudio (s1\<lparr>systemStream := Some stream\<rparr>))
       \<and> snd (snd (startSystemAudio env s))
           = ConsoleWarn # fst (snd (stopSystemAudio (s1\<lparr>systemStream := Some stream\<rparr>)))
       \<and> set (map TrackStop [0 ..< length (videoTracks stream)]) \<subseteq> set (snd (snd (startSystemAudio env s)))
       \<and> systemStream (fst (snd (startSystemAudio env s))) = None
       \<and> sourceNode (fst (snd (startSystemAudio env s))) = None
       \<and> destinationNode (fst (snd (startSystemAudio env s))) = None
       \<and> inputGainNode (fst (snd (startSystemAudio env s))) = None
       \<and> analyserNode (fst (snd (startSystemAudio env s))) = None
       \<and> keepAliveOscillator (fst (snd (startSystemAudio env s))) = None
       \<and> recorders (fst (snd (startSystemAudio env s))) = []
       \<and> switchInterval (fst (snd (startSystemAudio env s))) = None
       \<and> \<not> list_ex startsCapture (snd (snd (startSystemAudio env s)))"
proof -
  let ?s2 = "s1\<lparr>systemStream := Some stream\<rparr>"
  have t: "tornDown ?s2 = tornDown s1"
    by (simp add: tornDown_def)
  have r: "startSystemAudio env s =
      (False, tornDown s1, ConsoleWarn # teardownCalls ?s2 @ notifyStateChange (tornDown s1))"
    using ctx cap zero by (rule startSystemAudio_silent)
  have st: "stopSystemAudio ?s2 = (tornDown s1, teardownCalls ?s2 @ notifyStateChange (tornDown s1), None)"
    by (simp add: stopSystemAudio_result t)
  have fields: "systemStream (tornDown s1) = None \<and> sourceNode (tornDown s1) = None
      \<and> destinationNode (tornDown s1) = None \<and> inputGainNode (tornDown s1) = None
      \<and> analyserNode (tornDown s1) = None \<and> keepAliveOscillator (tornDown s1) = None
      \<and> recorders (tornDown s1) = [] \<and> switchInterval (tornDown s1) = None"
    by (simp add: tornDown_def)
  have tracks: "set (map TrackStop [0 ..< length (videoTracks stream)]) \<subseteq> set (teardownCalls ?s2)"
    by (auto simp: teardownCalls_def zero)
  have quiet: "\<not> list_ex startsCapture (ConsoleWarn # teardownCalls ?s2 @ notifyStateChange (tornDown s1))"
    using teardownCalls_quiet [of ?s2] notify_quiet [of "tornDown s1"] by simp
  show ?thesis
    unfolding r st using fields tracks quiet by auto
qed

theorem zero_audio_tracks_fail_start_witness:
  "andThen (ensureContext (browser silent_stream None False) (newCaptureEngine True True))
      (resumeContext (browser silent_stream None False))
     = ((newCaptureEngine True True)\<lparr>audioContext := Some Running\<rparr>, [], None)
   \<and> displayMedia (browser silent_stream None False) = Inr silent_stream
   \<and> audioTracks silent_stream = []
   \<and> startSystemAudio (browser silent_stream None False) (newCaptureEngine True True)
       = (False, (newCaptureEngine True True)\<lparr>audioContext := Some Running\<rparr>,
          [ConsoleWarn, TrackStop 0,
           CallbackStateChange \<lparr>micActive = False, systemAudioActive = False\<rparr>])"
proof -
  have ctx: "andThen (ensureContext (browser silent_stream None False) (newCaptureEngine True True))
      (resumeContext (browser silent_stream None False))
     = ((newCaptureEngine True True)\<lparr>audioContext := Some Running\<rparr>, [], None)"
    by (simp add: andThen_def ensureContext_def resumeContext_def browser_def
        newCaptureEngine_def proceed_def)
  have cap: "displayMedia (browser silent_stream None False) = Inr silent_stream"
    by (simp add: browser_def)
  have zero: "audioTracks silent_stream = []"
    by (simp add: silent_stream_def)
  have st: "stopSystemAudio ((newCaptureEngine True True)\<lparr>audioContext := Some Running, systemStream := Some silent_stream\<rparr>)
     = ((newCaptureEngine True True)\<lparr>audioContext := Some Running\<rparr>,
        [TrackStop 0, CallbackStateChange \<lparr>micActive = False, systemAudioActive = False\<rparr>], None)"
    by (simp add: stopSystemAudio_result tornDown_def teardownCalls_def newCaptureEngine_def
        silent_stream_def notifyStateChange_def getState_def enumerate_eq_zip)
  from zero_audio_tracks_fail_start [OF ctx cap zero] st
  have "startSystemAudio (browser silent_stream None False) (newCaptureEngine True True)
       = (False, (newCaptureEngine True True)\<lparr>audioContext := Some Running\<rparr>,
          [ConsoleWarn, TrackStop 0,
           CallbackStateChange \<lparr>micActive = False, systemAudioActive = False\<rparr>])"
    by (simp add: prod_eq_iff)
  with ctx cap zero show ?thesis
    by blast
qed

lemma buildGraph_fails:
  "\<exists>s'. buildGraph (Some st) graph_steps s = (s', [], Some InvalidStateError)
      \<and> recorders s' = recorders s \<and> switchInterval s' = switchInterval s"
  by (cases st)
    (simp_all add: graph_steps_def andThen_def proceed_def throw_def)

lemma buildGraph_completes:
  "\<exists>s'. buildGraph None graph_steps s = (s', [OscillatorStart], None)
      \<and> switchInterval s' = switchInterval s"
  by (simp add: graph_steps_def andThen_def proceed_def)

lemma startDualRecording_throws:
  "startDualRecording env s = (s', effs, Some e) \<Longrightarrow>
   switchInterval s' = switchInterval s \<and> effs = []"
  by (auto simp: startDualRecording_def throw_def Let_def startAt_def recorderAt_def
      recorder_start_def andThen_def proceed_def split: sum.splits if_splits)

lemma tryBlock_throws:
  assumes "tryBlock env s = (s', effs, Some e)"
  shows "switchInterval s' = switchInterval s \<and> \<not> list_ex isSetInterval effs"
proof (cases "graphFails env")
  case (Some st)
  from buildGraph_fails [of st s] obtain s1 where
    b: "buildGraph (Some st) graph_steps s = (s1, [], Some InvalidStateError)"
    and i: "switchInterval s1 = switchInterval s"
    by blast
  from assms show ?thesis
    by (simp add: tryBlock_def Some b andThen_def i [symmetric])
next
  case None
  from buildGraph_completes [of s] obtain s1 where
    b: "buildGraph None graph_steps s = (s1, [OscillatorStart], None)"
    and i: "switchInterval s1 = switchInterval s"
    by blast
  obtain s2 effs2 err2 where d: "startDualRecording env s1 = (s2, effs2, err2)"
    by (cases "startDualRecording env s1") auto
  from assms have t: "s' = s2" "effs = [OscillatorStart] @ effs2" "err2 = Some e"
    by (simp_all add: tryBlock_def None b andThen_def d)
  from startDualRecording_throws [of env s1 s2 effs2 e] d t(3)
  have "switchInterval s2 = switchInterval s1" and "effs2 = []"
    by simp_all
  with t i show ?thesis
    by simp
qed

lemma graph_failure_throws:
  "graphFails env = Some st \<Longrightarrow> \<exists>s'. tryBlock env s = (s', [], Some InvalidStateError)"
  using buildGraph_fails [of st s] by (auto simp: tryBlock_def andThen_def)

lemma dual_start_failure_throws:
  "graphFails env = None \<Longrightarrow> newRecorder env MixedStream = Inr r \<Longrightarrow> dualStartThrows env \<Longrightarrow>
   \<exists>s'. tryBlock env s = (s', [OscillatorStart], Some NotSupportedError)"
  using buildGraph_completes [of s]
  by (auto simp: tryBlock_def andThen_def startDualRecording_def throw_def Let_def)

lemma startSimpleRecording_ok:
  assumes ctor: "newRecorder env RawStream = Inr r"
    and startOk: "\<not> simpleStartThrows env"
  shows "startSimpleRecording env s =
          (s\<lparr>recorders := [r\<lparr>rstate := Recording, timeslice := Some 3000\<rparr>]\<rparr>,
           [RecorderStart 0 (Some 3000)], None)
       \<and> source r = RawStream"
  using assms
  by (auto simp: startSimpleRecording_def newRecorder_def recorder_start_def proceed_def
      split: if_splits)

lemma startSimpleRecording_fails:
  assumes "(\<exists>e. newRecorder env RawStream = Inl e) \<or> simpleStartThrows env"
  shows "\<exists>e. startSimpleRecording env s = (s, [], Some e)"
  using assms
  by (auto simp: startSimpleRecording_def throw_def split: sum.splits)

text \<open>
  C6, as amended. When the stream is captured with an audio track and the \<open>try\<close> block of
  \<open>setupAudioMixing\<close> throws (at a call of the graph construction or in the start of the
  dual recording), the engine falls back to one recorder on the raw stream, started with
  a timeslice of 3000 ms, and no rotation timer is set. If this recorder can be made and
  started, \<open>startSystemAudio\<close> returns \<open>true\<close>. If it cannot be made, or cannot be
  started, the exception leaves \<open>setupAudioMixing\<close> and \<open>startSystemAudio\<close> returns
  \<open>false\<close>.
\<close>

theorem graph_failure_falls_back:
  assumes ctx: "andThen (ensureContext env s) (resumeContext env) = (s1, effs0, None)"
    and cap: "displayMedia env = Inr stream"
    and tracks: "audioTracks stream \<noteq> []"
    and fails: "tryBlock env (s1\<lparr>systemStream := Some (disableVideo stream)\<rparr>) = (s', effs, Some e)"
  shows "(newRecorder env RawStream = Inr r \<and> \<not> simpleStartThrows env \<longrightarrow>
            fst (startSystemAudio env s) = True
          \<and> recorders (fst (snd (startSystemAudio env s)))
              = [r\<lparr>rstate := Recording, timeslice := Some 3000\<rparr>]
          \<and> source r = RawStream
          \<and> switchInterval (fst (snd (startSystemAudio env s))) = switchInterval s
          \<and> RecorderStart 0 (Some 3000) \<in> set (snd (snd (startSystemAudio env s)))
          \<and> \<not> list_ex isSetInterval (snd (snd (startSystemAudio env s))))
       \<and> ((\<exists>e'. newRecorder env RawStream = Inl e') \<or> simpleStartThrows env \<longrightarrow>
            fst (startSystemAudio env s) = False
          \<and> fst (snd (startSystemAudio env s)) = s'
          \<and> snd (snd (startSystemAudio env s)) = effs @ [ConsoleError, ConsoleError])"
proof -
  let ?s2 = "s1\<lparr>systemStream := Some (disableVideo stream)\<rparr>"
  from context_ready [OF ctx] have c: "audioContext s1 \<noteq> None" and e0: "effs0 = []"
    and s1: "s1 = s\<lparr>audioContext := audioContext s1\<rparr>"
    by simp_all
  from s1 have i1: "switchInterval s1 = switchInterval s"
    by (metis capture_engine.select_convs(6) capture_engine.surjective
        capture_engine.update_convs(7))
  from c have n: "(audioContext s1 = None) = False"
    by simp
  from tryBlock_throws [OF fails] have i: "switchInterval s' = switchInterval ?s2"
    and q: "\<not> list_ex isSetInterval effs"
    by simp_all
  have m: "setupAudioMixing env ?s2 = andThen (s', effs @ [ConsoleError], None) (startSimpleRecording env)"
    by (simp add: setupAudioMixing_def n fails)
  have good: "newRecorder env RawStream = Inr r \<and> \<not> simpleStartThrows env \<longrightarrow>
            fst (startSystemAudio env s) = True
          \<and> recorders (fst (snd (startSystemAudio env s)))
              = [r\<lparr>rstate := Recording, timeslice := Some 3000\<rparr>]
          \<and> source r = RawStream
          \<and> switchInterval (fst (snd (startSystemAudio env s))) = switchInterval s
          \<and> RecorderStart 0 (Some 3000) \<in> set (snd (snd (startSystemAudio env s)))
          \<and> \<not> list_ex isSetInterval (snd (snd (startSystemAudio env s)))"
  proof
    assume a: "newRecorder env RawStream = Inr r \<and> \<not> simpleStartThrows env"
    then have ctor: "newRecorder env RawStream = Inr r" and startOk: "\<not> simpleStartThrows env"
      by simp_all
    let ?s3 = "s'\<lparr>recorders := [r\<lparr>rstate := Recording, timeslice := Some 3000\<rparr>]\<rparr>"
    from startSimpleRecording_ok [OF ctor startOk, of s'] have
      simple: "startSimpleRecording env s' = (?s3, [RecorderStart 0 (Some 3000)], None)"
      and src: "source r = RawStream"
      by simp_all
    have m': "setupAudioMixing env ?s2 = (?s3, effs @ [ConsoleError, RecorderStart 0 (Some 3000)], None)"
      by (simp add: m andThen_def simple)
    have w: "withStream env stream (s1\<lparr>systemStream := Some stream\<rparr>) =
        (?s3, effs @ [ConsoleError, RecorderStart 0 (Some 3000)] @ [RegisterOnEnded]
           @ notifyStateChange ?s3, Inr True)"
      using tracks by (simp add: withStream_def m')
    have r: "startSystemAudio env s =
        (True, ?s3, effs @ [ConsoleError, RecorderStart 0 (Some 3000)] @ [RegisterOnEnded]
           @ notifyStateChange ?s3)"
      by (simp add: startSystemAudio_def startBody_def ctx cap e0 w)
    show "fst (startSystemAudio env s) = True
          \<and> recorders (fst (snd (startSystemAudio env s)))
              = [r\<lparr>rstate := Recording, timeslice := Some 3000\<rparr>]
          \<and> source r = RawStream
          \<and> switchInterval (fst (snd (startSystemAudio env s))) = switchInterval s
          \<and> RecorderStart 0 (Some 3000) \<in> set (snd (snd (startSystemAudio env s)))
          \<and> \<not> list_ex isSetInterval (snd (snd (startSystemAudio env s)))"
      unfolding r using src i i1 q by (simp add: notifyStateChange_def)
  qed
  have bad: "(\<exists>e'. newRecorder env RawStream = Inl e') \<or> simpleStartThrows env \<longrightarrow>
            fst (startSystemAudio env s) = False
          \<and> fst (snd (startSystemAudio env s)) = s'
          \<and> snd (snd (startSystemAudio env s)) = effs @ [ConsoleError, ConsoleError]"
  proof
    assume a: "(\<exists>e'. newRecorder env RawStream = Inl e') \<or> simpleStartThrows env"
    from startSimpleRecording_fails [OF a, of s'] obtain e' where
      simple: "startSimpleRecording env s' = (s', [], Some e')"
      by blast
    have m': "setupAudioMixing env ?s2 = (s', effs @ [ConsoleError], Some e')"
      by (simp add: m andThen_def simple)
    have w: "withStream env stream (s1\<lparr>systemStream := Some stream\<rparr>) =
        (s', effs @ [ConsoleError], Inl e')"
      using tracks by (simp add: withStream_def m')
    have r: "startSystemAudio env s = (False, s', effs @ [ConsoleError, ConsoleError])"
      by (simp add: startSystemAudio_def startBody_def ctx cap e0 w)
    show "fst (startSystemAudio env s) = False
          \<and> fst (snd (startSystemAudio env s)) = s'
          \<and> snd (snd (startSystemAudio env s)) = effs @ [ConsoleError, ConsoleError]"
      by (simp add: r)
  qed
  from good bad show ?thesis
    by blast
qed

theorem graph_failure_falls_back_witness:
  "fst (startSystemAudio (browser shared_stream (Some CreateAnalyser) False)
          (newCaptureEngine True True)) = True
   \<and> recorders (fst (snd (startSystemAudio (browser shared_stream (Some CreateAnalyser) False)
          (newCaptureEngine True True))))
       = [\<lparr>rstate = Recording, timeslice = Some 3000, source = RawStream, opus = True\<rparr>]
   \<and> switchInterval (fst (snd (startSystemAudio (browser shared_stream (Some CreateAnalyser) False)
          (newCaptureEngine True True)))) = None
   \<and> fst (startSystemAudio browser_refusing_mixed (newCaptureEngine True True)) = True
   \<and> recorders (fst (snd (startSystemAudio browser_refusing_mixed (newCaptureEngine True True))))
       = [\<lparr>rstate = Recording, timeslice = Some 3000, source = RawStream, opus = True\<rparr>]
   \<and> fst (startSystemAudio browser_refusing_raw (newCaptureEngine True True)) = False
   \<and> fst (startSystemAudio (browser shared_stream (Some CreateSource) True)
          (newCaptureEngine True True)) = False"
proof -
  let ?s = "newCaptureEngine True True"
  let ?s1 = "?s\<lparr>audioContext := Some Running\<rparr>"
  let ?s2 = "?s1\<lparr>systemStream := Some (disableVideo shared_stream)\<rparr>"
  let ?r = "\<lparr>rstate = Inactive, timeslice = None, source = RawStream, opus = True\<rparr>"
  have tracks: "audioTracks shared_stream \<noteq> []"
    by (simp add: shared_stream_def)
  have i: "switchInterval ?s = None"
    by (simp add: newCaptureEngine_def)
  have ctx: "andThen (ensureContext env ?s) (resumeContext env) = (?s1, [], None)"
    if "\<not> contextThrows env" and "newContextState env = Running" for env
    using that
    by (simp add: andThen_def ensureContext_def resumeContext_def newCaptureEngine_def proceed_def)
  \<comment> \<open>a graph call throws, the fallback works\<close>
  let ?e1 = "browser shared_stream (Some CreateAnalyser) False"
  have ctx1: "andThen (ensureContext ?e1 ?s) (resumeContext ?e1) = (?s1, [], None)"
    by (rule ctx) (simp_all add: browser_def)
  have cap1: "displayMedia ?e1 = Inr shared_stream"
    by (simp add: browser_def)
  from graph_failure_throws [of ?e1 CreateAnalyser ?s2] obtain t1 where
    f1: "tryBlock ?e1 ?s2 = (t1, [], Some InvalidStateError)"
    by (auto simp: browser_def)
  have n1: "newRecorder ?e1 RawStream = Inr ?r \<and> \<not> simpleStartThrows ?e1"
    by (simp add: newRecorder_def browser_def)
  from graph_failure_falls_back [OF ctx1 cap1 tracks f1, of ?r] n1 i
  have w1: "fst (startSystemAudio ?e1 ?s) = True
      \<and> recorders (fst (snd (startSystemAudio ?e1 ?s)))
          = [\<lparr>rstate = Recording, timeslice = Some 3000, source = RawStream, opus = True\<rparr>]
      \<and> switchInterval (fst (snd (startSystemAudio ?e1 ?s))) = None"
    by simp
  \<comment> \<open>the start of the dual recording throws, the fallback works\<close>
  let ?e2 = "browser_refusing_mixed"
  have ctx2: "andThen (ensureContext ?e2 ?s) (resumeContext ?e2) = (?s1, [], None)"
    by (rule ctx) (simp_all add: browser_refusing_mixed_def browser_def)
  have cap2: "displayMedia ?e2 = Inr shared_stream"
    by (simp add: browser_refusing_mixed_def browser_def)
  have "graphFails ?e2 = None"
    and "newRecorder ?e2 MixedStream
       = Inr \<lparr>rstate = Inactive, timeslice = None, source = MixedStream, opus = True\<rparr>"
    and "dualStartThrows ?e2"
    by (simp_all add: browser_refusing_mixed_def browser_def newRecorder_def)
  from dual_start_failure_throws [OF this, of ?s2] obtain t2 where
    f2: "tryBlock ?e2 ?s2 = (t2, [OscillatorStart], Some NotSupportedError)"
    by blast
  have n2: "newRecorder ?e2 RawStream = Inr ?r \<and> \<not> simpleStartThrows ?e2"
    by (simp add: newRecorder_def browser_refusing_mixed_def browser_def)
  from graph_failure_falls_back [OF ctx2 cap2 tracks f2, of ?r] n2
  have w2: "fst (startSystemAudio ?e2 ?s) = True
      \<and> recorders (fst (snd (startSystemAudio ?e2 ?s)))
          = [\<lparr>rstate = Recording, timeslice = Some 3000, source = RawStream, opus = True\<rparr>]"
    by simp
  \<comment> \<open>a graph call throws, the fallback recorder cannot be started\<close>
  let ?e3 = "browser_refusing_raw"
  have ctx3: "andThen (ensureContext ?e3 ?s) (resumeContext ?e3) = (?s1, [], None)"
    by (rule ctx) (simp_all add: browser_refusing_raw_def browser_def)
  have cap3: "displayMedia ?e3 = Inr shared_stream"
    by (simp add: browser_refusing_raw_def browser_def)
  from graph_failure_throws [of ?e3 CreateSource ?s2] obtain t3 where
    f3: "tryBlock ?e3 ?s2 = (t3, [], Some InvalidStateError)"
    by (auto simp: browser_refusing_raw_def browser_def)
  have n3: "(\<exists>e'. newRecorder ?e3 RawStream = Inl e') \<or> simpleStartThrows ?e3"
    by (simp add: browser_refusing_raw_def browser_def)
  from graph_failure_falls_back [OF ctx3 cap3 tracks f3, of ?r] n3
  have w3: "fst (startSystemAudio ?e3 ?s) = False"
    by blast
  \<comment> \<open>a graph call throws, the fallback recorder cannot be made\<close>
  let ?e4 = "browser shared_stream (Some CreateSource) True"
  have ctx4: "andThen (ensureContext ?e4 ?s) (resumeContext ?e4) = (?s1, [], None)"
    by (rule ctx) (simp_all add: browser_def)
  have cap4: "displayMedia ?e4 = Inr shared_stream"
    by (simp add: browser_def)
  from graph_failure_throws [of ?e4 CreateSource ?s2] obtain t4 where
    f4: "tryBlock ?e4 ?s2 = (t4, [], Some InvalidStateError)"
    by (auto simp: browser_def)
  have n4: "(\<exists>e'. newRecorder ?e4 RawStream = Inl e') \<or> simpleStartThrows ?e4"
    by (simp add: newRecorder_def browser_def)
  from graph_failure_falls_back [OF ctx4 cap4 tracks f4, of ?r] n4
  have w4: "fst (startSystemAudio ?e4 ?s) = False"
    by blast
  from w1 w2 w3 w4 show ?thesis
    by blast
qed

text \<open>
  C6 as stated fails when the fallback fails too: in a browser where the first call of the
  graph construction throws and so does the \<open>MediaRecorder\<close> constructor, with and
  without the mime type, the exception leaves \<open>setupAudioMixing\<close> through its \<open>catch\<close>
  block and \<open>startSystemAudio\<close> returns \<open>false\<close>.
\<close>

theorem graph_failure_can_fail_start:
  "graphFails (browser shared_stream (Some CreateSource) True) = Some CreateSource
   \<and> fst (startSystemAudio (browser shared_stream (Some CreateSource) True)
          (newCaptureEngine True True)) = False"
  by (simp add: startSystemAudio_def startBody_def andThen_def ensureContext_def
      resumeContext_def browser_def newCaptureEngine_def proceed_def throw_def withStream_def
      shared_stream_def setupAudioMixing_def tryBlock_def graph_steps_def
      startSimpleRecording_def
      newRecorder_def disableVideo_def)

end
